theory Spec2Isabelle
  imports Main "HOL-Library.AList"
begin

section \<open>The host runtime: Ruby values and exceptions\<close>

text \<open>
  The binding functions of \<^verbatim>\<open>tkphoto.c\<close> and \<^verbatim>\<open>tkutil.c\<close> receive Ruby values
  (\<^verbatim>\<open>VALUE\<close>), convert them with the macros of \<^verbatim>\<open>ruby.h\<close>, and raise Ruby exceptions
  with \<^verbatim>\<open>rb_raise\<close>. The values that reach these functions are nil, the booleans,
  integers, strings (byte sequences), symbols, arrays and hashes; floats and objects with
  user-defined conversions are outside this universe.
\<close>

datatype VALUE =
    Qnil
  | Qtrue
  | Qfalse
  | RInteger int
  | RString string
  | RSymbol string
  | RArray "VALUE list"
  | RHash "(VALUE \<times> VALUE) list"

datatype ruby_type =
  T_NIL | T_TRUE | T_FALSE | T_FIXNUM | T_STRING | T_SYMBOL | T_ARRAY | T_HASH

fun TYPE_of :: "VALUE \<Rightarrow> ruby_type" where
  "TYPE_of Qnil = T_NIL"
| "TYPE_of Qtrue = T_TRUE"
| "TYPE_of Qfalse = T_FALSE"
| "TYPE_of (RInteger i) = T_FIXNUM"
| "TYPE_of (RString s) = T_STRING"
| "TYPE_of (RSymbol s) = T_SYMBOL"
| "TYPE_of (RArray xs) = T_ARRAY"
| "TYPE_of (RHash kvs) = T_HASH"

definition NIL_P :: "VALUE \<Rightarrow> bool" where
  "NIL_P v = (v = Qnil)"

definition RTEST :: "VALUE \<Rightarrow> bool" where
  "RTEST v = (v \<noteq> Qnil \<and> v \<noteq> Qfalse)"

text \<open>
  An exception is the class given to \<^verbatim>\<open>rb_raise\<close>, its format string and the
  arguments of the format. \<open>MemoryFault\<close> is not a Ruby exception: it stands for a read
  outside the storage a pointer refers to, which C leaves undefined.
\<close>

datatype exn_class = rb_eArgError | rb_eTypeError | rb_eRangeError | eTclError

datatype fmt_arg = ArgLong int | ArgStr string

datatype failure = Raised exn_class string "fmt_arg list" | MemoryFault

definition rb_raise :: "exn_class \<Rightarrow> string \<Rightarrow> fmt_arg list \<Rightarrow> failure + 'a" where
  "rb_raise cls fmt args = Inl (Raised cls fmt args)"

text \<open>Sequencing of fallible steps: the first failure ends the function.\<close>

definition and_then :: "failure + 'a \<Rightarrow> ('a \<Rightarrow> failure + 'b) \<Rightarrow> failure + 'b" where
  "and_then m f = (case m of Inl e \<Rightarrow> Inl e | Inr x \<Rightarrow> f x)"

subsection \<open>C integers\<close>

text \<open>
  \<^verbatim>\<open>int\<close> is 32 bits and \<^verbatim>\<open>long\<close> is 64 bits (LP64). A C integer is modelled by the
  mathematical integer it denotes; every arithmetic operation of the source that can
  leave the range is followed by the two's complement wrap-around.
\<close>

definition INT_MAX :: int where
  "INT_MAX = 2147483647"

definition INT_MIN :: int where
  "INT_MIN = - 2147483648"

definition LONG_MAX :: int where
  "LONG_MAX = 9223372036854775807"

definition wrap_int :: "int \<Rightarrow> int" where
  "wrap_int n = signed_take_bit 31 n"

definition wrap_long :: "int \<Rightarrow> int" where
  "wrap_long n = signed_take_bit 63 n"

subsection \<open>Conversions\<close>

text \<open>
  \<^verbatim>\<open>NUM2INT\<close> yields the C \<^verbatim>\<open>int\<close> of a Ruby Integer and raises RangeError when it
  does not fit, TypeError for a value that is no number. (Message texts of the runtime's
  own exceptions are abridged.)
\<close>

definition NUM2INT :: "VALUE \<Rightarrow> failure + int" where
  "NUM2INT v =
     (case v of
        RInteger i \<Rightarrow>
          if i < INT_MIN \<or> INT_MAX < i
          then rb_raise rb_eRangeError ''integer %ld out of int range'' [ArgLong i]
          else Inr i
      | _ \<Rightarrow> rb_raise rb_eTypeError ''no implicit conversion to integer'' [])"

definition INT2NUM :: "int \<Rightarrow> VALUE" where
  "INT2NUM i = RInteger i"

definition INT2FIX :: "int \<Rightarrow> VALUE" where
  "INT2FIX i = RInteger i"

definition StringValue :: "VALUE \<Rightarrow> failure + string" where
  "StringValue v =
     (case v of
        RString s \<Rightarrow> Inr s
      | _ \<Rightarrow> rb_raise rb_eTypeError ''no implicit conversion into String'' [])"

definition RSTRING_LEN :: "string \<Rightarrow> int" where
  "RSTRING_LEN s = int (length s)"

text \<open>\<^verbatim>\<open>StringValueCStr\<close> refuses a string with an embedded NUL byte.\<close>

definition StringValueCStr :: "string \<Rightarrow> failure + string" where
  "StringValueCStr s =
     (if CHR 0x00 \<in> set s
      then rb_raise rb_eArgError ''string contains null byte'' []
      else Inr s)"

subsection \<open>Hashes\<close>

text \<open>
  A hash is an association list in insertion order. \<^verbatim>\<open>rb_hash_aref\<close> returns nil for
  a missing key; \<^verbatim>\<open>rb_hash_aset\<close> replaces the value of a present key in place and
  appends a new one.
\<close>

definition rb_hash_aref :: "VALUE \<Rightarrow> VALUE \<Rightarrow> VALUE" where
  "rb_hash_aref h k =
     (case h of
        RHash kvs \<Rightarrow> (case map_of kvs k of None \<Rightarrow> Qnil | Some v \<Rightarrow> v)
      | _ \<Rightarrow> Qnil)"

definition rb_hash_aset :: "VALUE \<Rightarrow> VALUE \<Rightarrow> VALUE \<Rightarrow> VALUE" where
  "rb_hash_aset h k v =
     (case h of RHash kvs \<Rightarrow> RHash (AList.update k v kvs) | _ \<Rightarrow> h)"

definition rb_hash_new :: VALUE where
  "rb_hash_new = RHash []"

definition ID2SYM :: "string \<Rightarrow> VALUE" where
  "ID2SYM name = RSymbol name"

definition rb_ary_new :: VALUE where
  "rb_ary_new = RArray []"

definition rb_ary_push :: "VALUE \<Rightarrow> VALUE \<Rightarrow> VALUE" where
  "rb_ary_push ary v = (case ary of RArray xs \<Rightarrow> RArray (xs @ [v]) | _ \<Rightarrow> ary)"

section \<open>The native library: the state of a Tcl interpreter with Tk\<close>

text \<open>
  Tcl and Tk are external to the repository. Their state is modelled as far as the
  entry points called by the bindings read or write it, following the Tk manual pages
  (FindPhoto, CoordToWin, MainWin, Name):
  \<^item> a photo image has a size (\<open>pm_width\<close>, \<open>pm_height\<close>), an optional user-requested
    size (\<open>0\<close> when none), and its pixels as \<open>width * height\<close> groups of four bytes
    (red, green, blue, alpha);
  \<^item> a Tk window has a path name, absent while the window is being deleted;
  \<^item> the display answers which window of the application contains a root coordinate;
  \<^item> every entry point called is recorded in \<open>native_calls\<close>, so that "before any native
    call" is a statement about the state.
\<close>

record PhotoMaster =
  pm_width :: int
  pm_height :: int
  userWidth :: int
  userHeight :: int
  pix32 :: "char list"

record Tk_Window =
  pathName :: "string option"

record Tk_PhotoImageBlock =
  pixelPtr :: "char list"
  width :: int
  height :: int
  pitch :: int
  pixelSize :: int
  offset :: "int list"

datatype tk_call =
    Call_Tk_FindPhoto string
  | Call_Tk_PhotoPutBlock string Tk_PhotoImageBlock int int int int
  | Call_Tk_PhotoPutZoomedBlock string Tk_PhotoImageBlock int int int int int int int int
  | Call_Tk_PhotoGetImage string
  | Call_Tk_MainWindow
  | Call_Tk_CoordsToWindow int int
  | Call_Tk_PathName
  | Call_Tcl_ListObjGetElements string

record Tcl_Interp =
  photos :: "string \<Rightarrow> PhotoMaster option"
  mainWindow :: "Tk_Window option"
  windowAt :: "int \<Rightarrow> int \<Rightarrow> Tk_Window option"
  result_string :: string
  alloc_limit :: int
  native_calls :: "tk_call list"

definition called :: "tk_call \<Rightarrow> Tcl_Interp \<Rightarrow> Tcl_Interp" where
  "called c s = s\<lparr>native_calls := native_calls s @ [c]\<rparr>"

definition Tcl_GetStringResult :: "Tcl_Interp \<Rightarrow> string" where
  "Tcl_GetStringResult s = result_string s"

definition Tk_MainWindow :: "Tcl_Interp \<Rightarrow> Tk_Window option \<times> Tcl_Interp" where
  "Tk_MainWindow s = (mainWindow s, called Call_Tk_MainWindow s)"

definition Tk_CoordsToWindow ::
  "int \<Rightarrow> int \<Rightarrow> Tk_Window \<Rightarrow> Tcl_Interp \<Rightarrow> Tk_Window option \<times> Tcl_Interp" where
  "Tk_CoordsToWindow rootX rootY tkwin s =
     (windowAt s rootX rootY, called (Call_Tk_CoordsToWindow rootX rootY) s)"

definition Tk_PathName :: "Tk_Window \<Rightarrow> Tcl_Interp \<Rightarrow> string option \<times> Tcl_Interp" where
  "Tk_PathName tkwin s = (pathName tkwin, called Call_Tk_PathName s)"

subsection \<open>Photo images\<close>

definition TCL_OK :: int where
  "TCL_OK = 0"

definition TCL_ERROR :: int where
  "TCL_ERROR = 1"

text \<open>A read through a pointer: \<open>None\<close> outside the storage it refers to.\<close>

definition peek :: "char list \<Rightarrow> int \<Rightarrow> char option" where
  "peek mem i = (if 0 \<le> i \<and> i < int (length mem) then Some (mem ! nat i) else None)"

text \<open>
  Channel \<open>k\<close> (0 red, 1 green, 2 blue, 3 alpha) of the pixel in column \<open>col\<close> and row
  \<open>row\<close> of a block, as the manual page defines the fields of
  \<^verbatim>\<open>Tk_PhotoImageBlock\<close>: rows are \<open>pitch\<close> bytes apart, pixels \<open>pixelSize\<close> bytes
  apart, and \<open>offset[k]\<close> is the position of the channel inside a pixel.
\<close>

definition block_byte :: "Tk_PhotoImageBlock \<Rightarrow> int \<Rightarrow> int \<Rightarrow> nat \<Rightarrow> char option" where
  "block_byte b col row k =
     peek (pixelPtr b) (row * pitch b + col * pixelSize b + offset b ! k)"

text \<open>
  \<^verbatim>\<open>Tk_FindPhoto\<close> returns the handle of the image of that name, or \<^verbatim>\<open>NULL\<close>.
  A handle is modelled by the name of its image.
\<close>

definition Tk_FindPhoto :: "string \<Rightarrow> Tcl_Interp \<Rightarrow> string option \<times> Tcl_Interp" where
  "Tk_FindPhoto imageName s =
     ((case photos s imageName of None \<Rightarrow> None | Some m \<Rightarrow> Some imageName),
      called (Call_Tk_FindPhoto imageName) s)"

text \<open>
  \<^verbatim>\<open>Tk_PhotoGetImage\<close> describes the image's own storage: four bytes per pixel in the
  order red, green, blue, alpha, rows contiguous. It returns 1.
\<close>

definition Tk_PhotoGetImage ::
  "string \<Rightarrow> Tcl_Interp \<Rightarrow> (int \<times> Tk_PhotoImageBlock) \<times> Tcl_Interp" where
  "Tk_PhotoGetImage handle s =
     (case photos s handle of
        None \<Rightarrow>
          ((0, \<lparr>pixelPtr = [], width = 0, height = 0, pitch = 0, pixelSize = 0,
                offset = [0, 0, 0, 0]\<rparr>),
           called (Call_Tk_PhotoGetImage handle) s)
      | Some m \<Rightarrow>
          ((1, \<lparr>pixelPtr = pix32 m, width = pm_width m, height = pm_height m,
                pitch = pm_width m * 4, pixelSize = 4, offset = [0, 1, 2, 3]\<rparr>),
           called (Call_Tk_PhotoGetImage handle) s))"

text \<open>
  Writing a region with the compositing rule \<^verbatim>\<open>TK_PHOTO_COMPOSITE_SET\<close>, the only one
  the bindings use. \<open>src i j k\<close> is channel \<open>k\<close> of the source pixel for the destination
  pixel \<open>(x + i, y + j)\<close>. Following the manual page:
  \<^item> \<open>x\<close> and \<open>y\<close> must be non-negative (a write before the storage otherwise);
  \<^item> an area beyond a user-requested size is silently clipped;
  \<^item> an image without one is expanded to include the area, new pixels transparent;
    the call fails with \<^verbatim>\<open>TCL_ERROR\<close> when the storage cannot be allocated
    (more than \<open>limit\<close> bytes, the interpreter's \<open>alloc_limit\<close>);
  \<^item> pixels of the area are replaced, all others kept.
\<close>

definition dest_byte ::
  "PhotoMaster \<Rightarrow> int \<Rightarrow> int \<Rightarrow> int \<Rightarrow> int \<Rightarrow> (int \<Rightarrow> int \<Rightarrow> nat \<Rightarrow> char option)
     \<Rightarrow> int \<Rightarrow> nat \<Rightarrow> char option" where
  "dest_byte m x y w h src newWidth idx =
     (let col = int (idx div 4) mod newWidth;
          row = int (idx div 4) div newWidth;
          k = idx mod 4
      in if x \<le> col \<and> col < x + w \<and> y \<le> row \<and> row < y + h
         then src (col - x) (row - y) k
         else if col < pm_width m \<and> row < pm_height m
         then peek (pix32 m) ((row * pm_width m + col) * 4 + int k)
         else Some (CHR 0x00))"

definition store_region ::
  "PhotoMaster \<Rightarrow> int \<Rightarrow> int \<Rightarrow> int \<Rightarrow> int \<Rightarrow> (int \<Rightarrow> int \<Rightarrow> nat \<Rightarrow> char option)
     \<Rightarrow> int \<Rightarrow> (int \<times> PhotoMaster) option" where
  "store_region m x y w0 h0 src limit =
     (if x < 0 \<or> y < 0 then None
      else
        let w = (if userWidth m \<noteq> 0 \<and> x + w0 > userWidth m then userWidth m - x else w0);
            h = (if userHeight m \<noteq> 0 \<and> y + h0 > userHeight m then userHeight m - y else h0)
        in if w \<le> 0 \<or> h \<le> 0 then Some (TCL_OK, m)
           else
             let newWidth = max (x + w) (pm_width m);
                 newHeight = max (y + h) (pm_height m)
             in if (newWidth \<noteq> pm_width m \<or> newHeight \<noteq> pm_height m)
                    \<and> newWidth * newHeight * 4 > limit
                then Some (TCL_ERROR, m)
                else
                  (case those (map (dest_byte m x y w h src newWidth)
                                  [0..<nat (newWidth * newHeight * 4)]) of
                     None \<Rightarrow> None
                   | Some bytes \<Rightarrow>
                       Some (TCL_OK,
                             m\<lparr>pm_width := newWidth, pm_height := newHeight, pix32 := bytes\<rparr>)))"

text \<open>
  The result of a native write: \<open>None\<close> for a memory fault, otherwise the return code and
  the interpreter with the image replaced; a failed allocation leaves Tk's message as the
  interpreter's result.
\<close>

definition write_photo ::
  "tk_call \<Rightarrow> string \<Rightarrow> (int \<times> PhotoMaster) option \<Rightarrow> Tcl_Interp \<Rightarrow> int option \<times> Tcl_Interp" where
  "write_photo c handle r s =
     (case r of
        None \<Rightarrow> (None, called c s)
      | Some (rc, m') \<Rightarrow>
          if rc = TCL_OK
          then (Some rc, called c (s\<lparr>photos := (photos s)(handle := Some m')\<rparr>))
          else (Some rc, called c (s\<lparr>result_string := ''not enough free memory for image buffer''\<rparr>)))"

text \<open>
  \<^verbatim>\<open>Tk_PhotoPutBlock\<close>: a block smaller than the area is repeated to fill it.
\<close>

definition Tk_PhotoPutBlock ::
  "string \<Rightarrow> Tk_PhotoImageBlock \<Rightarrow> int \<Rightarrow> int \<Rightarrow> int \<Rightarrow> int \<Rightarrow> Tcl_Interp
     \<Rightarrow> int option \<times> Tcl_Interp" where
  "Tk_PhotoPutBlock handle b x y w h s =
     (case photos s handle of
        None \<Rightarrow> (None, called (Call_Tk_PhotoPutBlock handle b x y w h) s)
      | Some m \<Rightarrow>
          write_photo (Call_Tk_PhotoPutBlock handle b x y w h) handle
            (store_region m x y w h
               (\<lambda>i j k. block_byte b (i mod width b) (j mod height b) k) (alloc_limit s)) s)"

text \<open>
  \<^verbatim>\<open>Tk_PhotoPutZoomedBlock\<close> with positive factors: every \<open>subsample\<close>-th pixel of
  the block is taken and repeated \<open>zoom\<close> times in each direction. Non-positive zoom
  factors make the call a no-operation. Non-positive subsample factors (mirroring),
  which the binding never passes, are not modelled: the result is \<open>None\<close>.
\<close>

definition Tk_PhotoPutZoomedBlock ::
  "string \<Rightarrow> Tk_PhotoImageBlock \<Rightarrow> int \<Rightarrow> int \<Rightarrow> int \<Rightarrow> int \<Rightarrow> int \<Rightarrow> int \<Rightarrow> int \<Rightarrow> int
     \<Rightarrow> Tcl_Interp \<Rightarrow> int option \<times> Tcl_Interp" where
  "Tk_PhotoPutZoomedBlock handle b x y w h zoomX zoomY subsampleX subsampleY s =
     (let c = Call_Tk_PhotoPutZoomedBlock handle b x y w h zoomX zoomY subsampleX subsampleY
      in case photos s handle of
           None \<Rightarrow> (None, called c s)
         | Some m \<Rightarrow>
             if zoomX \<le> 0 \<or> zoomY \<le> 0 then (Some TCL_OK, called c s)
             else if subsampleX \<le> 0 \<or> subsampleY \<le> 0 then (None, called c s)
             else
               let blockWid = ((width b + subsampleX - 1) div subsampleX) * zoomX;
                   blockHt = ((height b + subsampleY - 1) div subsampleY) * zoomY
               in write_photo c handle
                    (store_region m x y w h
                       (\<lambda>i j k. block_byte b (((i mod blockWid) div zoomX) * subsampleX)
                                             (((j mod blockHt) div zoomY) * subsampleY) k)
                       (alloc_limit s)) s)"

section \<open>tkutil.c\<close>

text \<open>
  Every binding starts with \<^verbatim>\<open>get_interp(self)\<close> (in \<^verbatim>\<open>tcltkbridge.c\<close>), which
  unwraps the receiver and raises when the interpreter was deleted. The functions below
  start from the interpreter it returned: their state argument is what
  \<^verbatim>\<open>tip->interp\<close> points to. A binding returns its outcome together with the state it
  leaves. The arguments are the values \<^verbatim>\<open>rb_scan_args\<close> delivers: an optional
  argument that was not given is nil.
\<close>

subsection \<open>\<^verbatim>\<open>interp_tcl_split_list\<close>\<close>

text \<open>
  \<^verbatim>\<open>Tcl_ListObjGetElements\<close> is Tcl's list parser. Its grammar is not needed here: the
  parser is the parameter \<open>parse\<close>, which returns the elements of a well-formed list and
  \<open>None\<close> (with \<^verbatim>\<open>TCL_ERROR\<close>) for a malformed one.
\<close>

definition Tcl_ListObjGetElements ::
  "(string \<Rightarrow> string list option) \<Rightarrow> string \<Rightarrow> Tcl_Interp \<Rightarrow> string list option \<times> Tcl_Interp" where
  "Tcl_ListObjGetElements parse listobj s =
     (parse listobj, called (Call_Tcl_ListObjGetElements listobj) s)"

fun push_all :: "VALUE \<Rightarrow> string list \<Rightarrow> VALUE" where
  "push_all ary [] = ary"
| "push_all ary (str # objv) = push_all (rb_ary_push ary (RString str)) objv"

definition interp_tcl_split_list ::
  "(string \<Rightarrow> string list option) \<Rightarrow> VALUE \<Rightarrow> Tcl_Interp \<Rightarrow> (failure + VALUE) \<times> Tcl_Interp" where
  "interp_tcl_split_list parse list_str s =
     (if NIL_P list_str then (Inr rb_ary_new, s)
      else case StringValue list_str of
        Inl e \<Rightarrow> (Inl e, s)
      | Inr str \<Rightarrow>
          if RSTRING_LEN str = 0 then (Inr rb_ary_new, s)
          else
            (case Tcl_ListObjGetElements parse str s of
               (None, s') \<Rightarrow>
                 (rb_raise eTclError ''invalid Tcl list: %s'' [ArgStr (Tcl_GetStringResult s')], s')
             | (Some objv, s') \<Rightarrow> (Inr (push_all rb_ary_new objv), s')))"

subsection \<open>\<^verbatim>\<open>interp_coords_to_window\<close>\<close>

text \<open>
  The two \<^verbatim>\<open>NUM2INT\<close> conversions are arguments of the call of
  \<^verbatim>\<open>Tk_CoordsToWindow\<close>; they are taken from left to right. \<^verbatim>\<open>Tk_PathName\<close> is a
  macro reading a field of the window; it is recorded like a call.
\<close>

definition interp_coords_to_window ::
  "VALUE \<Rightarrow> VALUE \<Rightarrow> Tcl_Interp \<Rightarrow> (failure + VALUE) \<times> Tcl_Interp" where
  "interp_coords_to_window root_x root_y s =
     (case Tk_MainWindow s of
        (None, s1) \<Rightarrow>
          (rb_raise eTclError ''Tk not initialized (no main window)'' [], s1)
      | (Some mainWin, s1) \<Rightarrow>
          (case NUM2INT root_x of
             Inl e \<Rightarrow> (Inl e, s1)
           | Inr x \<Rightarrow>
              (case NUM2INT root_y of
                 Inl e \<Rightarrow> (Inl e, s1)
               | Inr y \<Rightarrow>
                  (case Tk_CoordsToWindow x y mainWin s1 of
                     (None, s2) \<Rightarrow> (Inr Qnil, s2)
                   | (Some foundWin, s2) \<Rightarrow>
                      (case Tk_PathName foundWin s2 of
                         (None, s3) \<Rightarrow> (Inr Qnil, s3)
                       | (Some p, s3) \<Rightarrow> (Inr (RString p), s3))))))"

section \<open>tkphoto.c\<close>

text \<open>
  A binding is a computation on the interpreter that ends with a value or a failure.
  \<open>lift\<close> embeds a step of the host runtime, \<open>native\<close> a call of the library,
  \<open>then_do\<close> sequences: a failure ends the binding in the state reached so far.
\<close>

type_synonym 'a binding = "Tcl_Interp \<Rightarrow> (failure + 'a) \<times> Tcl_Interp"

definition lift :: "failure + 'a \<Rightarrow> 'a binding" where
  "lift r = (\<lambda>s. (r, s))"

definition native :: "(Tcl_Interp \<Rightarrow> 'a \<times> Tcl_Interp) \<Rightarrow> 'a binding" where
  "native f = (\<lambda>s. case f s of (x, s') \<Rightarrow> (Inr x, s'))"

definition native_write :: "(Tcl_Interp \<Rightarrow> 'a option \<times> Tcl_Interp) \<Rightarrow> 'a binding" where
  "native_write f =
     (\<lambda>s. case f s of (None, s') \<Rightarrow> (Inl MemoryFault, s') | (Some x, s') \<Rightarrow> (Inr x, s'))"

definition then_do :: "'a binding \<Rightarrow> ('a \<Rightarrow> 'b binding) \<Rightarrow> 'b binding" where
  "then_do m f = (\<lambda>s. case m s of (Inl e, s') \<Rightarrow> (Inl e, s') | (Inr x, s') \<Rightarrow> f x s')"

text \<open>
  \<^verbatim>\<open>rb_raise(eTclError, fmt, Tcl_GetStringResult(tip->interp))\<close>
\<close>

definition raise_tcl_result :: "string \<Rightarrow> 'a binding" where
  "raise_tcl_result fmt = (\<lambda>s. (rb_raise eTclError fmt [ArgStr (Tcl_GetStringResult s)], s))"

definition rb_intern :: "string \<Rightarrow> string" where
  "rb_intern name = name"

definition SYM2ID :: "VALUE \<Rightarrow> string" where
  "SYM2ID v = (case v of RSymbol name \<Rightarrow> name | _ \<Rightarrow> [])"

text \<open>
  The pattern of every integer option:
  \<^verbatim>\<open>val = rb_hash_aref(opts, ID2SYM(rb_intern(key))); if (!NIL_P(val)) var = NUM2INT(val);\<close>
  where \<open>var\<close> held \<open>dflt\<close> before.
\<close>

definition opt_int :: "VALUE \<Rightarrow> string \<Rightarrow> int \<Rightarrow> failure + int" where
  "opt_int opts key dflt =
     (let val = rb_hash_aref opts (ID2SYM (rb_intern key))
      in if \<not> NIL_P val then NUM2INT val else Inr dflt)"

text \<open>The \<^verbatim>\<open>:format\<close> option: \<open>is_argb\<close> becomes 1 for the symbol \<^verbatim>\<open>:argb\<close> only.\<close>

definition opt_is_argb :: "VALUE \<Rightarrow> int" where
  "opt_is_argb opts =
     (let val = rb_hash_aref opts (ID2SYM (rb_intern ''format''))
      in if \<not> NIL_P val \<and> TYPE_of val = T_SYMBOL
         then (if rb_intern ''argb'' = SYM2ID val then 1 else 0)
         else 0)"

text \<open>The channel offsets of the block (lines 92--104 and 226--238).\<close>

definition block_offsets :: "int \<Rightarrow> int list" where
  "block_offsets is_argb = (if is_argb \<noteq> 0 then [2, 1, 0, 3] else [0, 1, 2, 3])"

subsection \<open>\<^verbatim>\<open>interp_photo_put_block\<close>\<close>

definition put_block_opts :: "VALUE \<Rightarrow> failure + int \<times> int \<times> int" where
  "put_block_opts opts =
     (if \<not> NIL_P opts \<and> TYPE_of opts = T_HASH
      then
        and_then (opt_int opts ''x'' 0) (\<lambda>x_off.
        and_then (opt_int opts ''y'' 0) (\<lambda>y_off.
        Inr (x_off, y_off, opt_is_argb opts)))
      else Inr (0, 0, 0))"

definition interp_photo_put_block ::
  "VALUE \<Rightarrow> VALUE \<Rightarrow> VALUE \<Rightarrow> VALUE \<Rightarrow> VALUE \<Rightarrow> VALUE binding" where
  "interp_photo_put_block photo_path pixel_data width_val height_val opts =
     then_do (lift (StringValue photo_path)) (\<lambda>photo_path.
     then_do (lift (StringValue pixel_data)) (\<lambda>pixel_data.
     then_do (lift (NUM2INT width_val)) (\<lambda>width.
     then_do (lift (NUM2INT height_val)) (\<lambda>height.
     if width \<le> 0 \<or> height \<le> 0
     then lift (rb_raise rb_eArgError ''width and height must be positive'' [])
     else
       let expected_size = wrap_long (wrap_long (width * height) * 4)
       in
         if RSTRING_LEN pixel_data \<noteq> expected_size
         then lift (rb_raise rb_eArgError
                 ''pixel_data size mismatch: expected %ld bytes, got %ld''
                 [ArgLong expected_size, ArgLong (RSTRING_LEN pixel_data)])
         else
           then_do (lift (put_block_opts opts)) (\<lambda>(x_off, y_off, is_argb).
           then_do (lift (StringValueCStr photo_path)) (\<lambda>name.
           then_do (native (Tk_FindPhoto name)) (\<lambda>photo.
           case photo of
             None \<Rightarrow> lift (rb_raise eTclError ''photo image not found: %s'' [ArgStr name])
           | Some photo \<Rightarrow>
               let block = \<lparr>pixelPtr = pixel_data, width = width, height = height,
                            pitch = wrap_int (width * 4), pixelSize = 4,
                            offset = block_offsets is_argb\<rparr>
               in
                 then_do (native_write
                            (Tk_PhotoPutBlock photo block x_off y_off width height)) (\<lambda>rc.
                 if rc \<noteq> TCL_OK then raise_tcl_result ''Tk_PhotoPutBlock failed: %s''
                 else lift (Inr Qnil)))))))))"

subsection \<open>\<^verbatim>\<open>interp_photo_put_zoomed_block\<close>\<close>

definition put_zoomed_block_opts ::
  "VALUE \<Rightarrow> failure + int \<times> int \<times> int \<times> int \<times> int \<times> int \<times> int" where
  "put_zoomed_block_opts opts =
     (if \<not> NIL_P opts \<and> TYPE_of opts = T_HASH
      then
        and_then (opt_int opts ''x'' 0) (\<lambda>x_off.
        and_then (opt_int opts ''y'' 0) (\<lambda>y_off.
        and_then (opt_int opts ''zoom_x'' 1) (\<lambda>zoom_x.
        and_then (opt_int opts ''zoom_y'' 1) (\<lambda>zoom_y.
        and_then (opt_int opts ''subsample_x'' 1) (\<lambda>subsample_x.
        and_then (opt_int opts ''subsample_y'' 1) (\<lambda>subsample_y.
        Inr (x_off, y_off, zoom_x, zoom_y, subsample_x, subsample_y, opt_is_argb opts)))))))
      else Inr (0, 0, 1, 1, 1, 1, 0))"

text \<open>
  The divisions of lines 241--242 have positive operands, where C's truncating division
  and \<open>div\<close> agree.
\<close>

definition interp_photo_put_zoomed_block ::
  "VALUE \<Rightarrow> VALUE \<Rightarrow> VALUE \<Rightarrow> VALUE \<Rightarrow> VALUE \<Rightarrow> VALUE binding" where
  "interp_photo_put_zoomed_block photo_path pixel_data width_val height_val opts =
     then_do (lift (StringValue photo_path)) (\<lambda>photo_path.
     then_do (lift (StringValue pixel_data)) (\<lambda>pixel_data.
     then_do (lift (NUM2INT width_val)) (\<lambda>width.
     then_do (lift (NUM2INT height_val)) (\<lambda>height.
     if width \<le> 0 \<or> height \<le> 0
     then lift (rb_raise rb_eArgError ''width and height must be positive'' [])
     else
       let expected_size = wrap_long (wrap_long (width * height) * 4)
       in
         if RSTRING_LEN pixel_data \<noteq> expected_size
         then lift (rb_raise rb_eArgError
                 ''pixel_data size mismatch: expected %ld bytes, got %ld''
                 [ArgLong expected_size, ArgLong (RSTRING_LEN pixel_data)])
         else
           then_do (lift (put_zoomed_block_opts opts))
             (\<lambda>(x_off, y_off, zoom_x, zoom_y, subsample_x, subsample_y, is_argb).
           if zoom_x \<le> 0 \<or> zoom_y \<le> 0
           then lift (rb_raise rb_eArgError ''zoom factors must be positive'' [])
           else if subsample_x \<le> 0 \<or> subsample_y \<le> 0
           then lift (rb_raise rb_eArgError ''subsample factors must be positive'' [])
           else
             then_do (lift (StringValueCStr photo_path)) (\<lambda>name.
             then_do (native (Tk_FindPhoto name)) (\<lambda>photo.
             case photo of
               None \<Rightarrow> lift (rb_raise eTclError ''photo image not found: %s'' [ArgStr name])
             | Some photo \<Rightarrow>
                 let block = \<lparr>pixelPtr = pixel_data, width = width, height = height,
                              pitch = wrap_int (width * 4), pixelSize = 4,
                              offset = block_offsets is_argb\<rparr>;
                     dest_width = wrap_int ((width div subsample_x) * zoom_x);
                     dest_height = wrap_int ((height div subsample_y) * zoom_y)
                 in
                   then_do (native_write
                              (Tk_PhotoPutZoomedBlock photo block x_off y_off
                                 dest_width dest_height
                                 zoom_x zoom_y subsample_x subsample_y)) (\<lambda>rc.
                   if rc \<noteq> TCL_OK
                   then raise_tcl_result ''Tk_PhotoPutZoomedBlock failed: %s''
                   else lift (Inr Qnil)))))))))"

subsection \<open>\<^verbatim>\<open>interp_photo_get_image\<close>\<close>

definition get_image_opts ::
  "VALUE \<Rightarrow> int \<Rightarrow> int \<Rightarrow> failure + int \<times> int \<times> int \<times> int \<times> int" where
  "get_image_opts opts img_width img_height =
     (if \<not> NIL_P opts \<and> TYPE_of opts = T_HASH
      then
        and_then (opt_int opts ''x'' 0) (\<lambda>x_off.
        and_then (opt_int opts ''y'' 0) (\<lambda>y_off.
        and_then (opt_int opts ''width'' img_width) (\<lambda>req_width.
        and_then (opt_int opts ''height'' img_height) (\<lambda>req_height.
        Inr (x_off, y_off, req_width, req_height,
             if RTEST (rb_hash_aref opts (ID2SYM (rb_intern ''unpack''))) then 1 else 0)))))
      else Inr (0, 0, img_width, img_height, 0))"

text \<open>
  "Validate and clamp region" (lines 332--346): the offsets and the size of the region
  that is read, or the exception. The sum \<^verbatim>\<open>x_off + actual_width\<close> and the difference
  \<^verbatim>\<open>img_width - x_off\<close> are \<^verbatim>\<open>int\<close> arithmetic.
\<close>

definition clamp_region ::
  "int \<Rightarrow> int \<Rightarrow> int \<Rightarrow> int \<Rightarrow> int \<Rightarrow> int \<Rightarrow> failure + int \<times> int \<times> int \<times> int" where
  "clamp_region img_width img_height x_off0 y_off0 req_width req_height =
     (let x_off = (if x_off0 < 0 then 0 else x_off0);
          y_off = (if y_off0 < 0 then 0 else y_off0)
      in if x_off \<ge> img_width \<or> y_off \<ge> img_height
         then rb_raise rb_eArgError ''offset outside image bounds'' []
         else
           let actual_width =
                 (if wrap_int (x_off + req_width) > img_width
                  then wrap_int (img_width - x_off) else req_width);
               actual_height =
                 (if wrap_int (y_off + req_height) > img_height
                  then wrap_int (img_height - y_off) else req_height)
           in if actual_width \<le> 0 \<or> actual_height \<le> 0
              then rb_raise rb_eArgError ''invalid region size'' []
              else Inr (x_off, y_off, actual_width, actual_height))"

text \<open>
  The four values taken from the pixel at \<open>src\<close> (a byte position relative to
  \<^verbatim>\<open>block.pixelPtr\<close>): \<^verbatim>\<open>src[r_off], src[g_off], src[b_off]\<close> and
  \<^verbatim>\<open>(block.pixelSize >= 4) ? src[a_off] : 255\<close>. A read outside the storage gives
  \<open>None\<close>.
\<close>

definition read_pixel :: "Tk_PhotoImageBlock \<Rightarrow> int \<Rightarrow> char list option" where
  "read_pixel block src =
     (let r_off = offset block ! 0; g_off = offset block ! 1;
          b_off = offset block ! 2; a_off = offset block ! 3
      in those [peek (pixelPtr block) (src + r_off),
                peek (pixelPtr block) (src + g_off),
                peek (pixelPtr block) (src + b_off),
                if pixelSize block \<ge> 4 then peek (pixelPtr block) (src + a_off)
                else Some (CHR 0xFF)])"

text \<open>
  The two pairs of loops (lines 364--373 and 381--390) differ only in what they do with
  a value: \<^verbatim>\<open>*dst++ = v\<close> or \<^verbatim>\<open>rb_ary_push(pixels, INT2FIX(v))\<close>. That is the
  parameter \<open>emit\<close>; \<open>dst\<close> is what has been written so far.
\<close>

function copy_row ::
  "(char \<Rightarrow> 'a) \<Rightarrow> Tk_PhotoImageBlock \<Rightarrow> int \<Rightarrow> int \<Rightarrow> int \<Rightarrow> 'a list \<Rightarrow> failure + 'a list" where
  "copy_row emit block src x actual_width dst =
     (if x < actual_width
      then (case read_pixel block src of
              None \<Rightarrow> Inl MemoryFault
            | Some px \<Rightarrow>
                copy_row emit block (src + pixelSize block) (x + 1) actual_width
                  (dst @ map emit px))
      else Inr dst)"
  by pat_completeness auto
termination
  by (relation "measure (\<lambda>(emit, block, src, x, actual_width, dst). nat (actual_width - x))")
    auto

function copy_rows ::
  "(char \<Rightarrow> 'a) \<Rightarrow> Tk_PhotoImageBlock \<Rightarrow> int \<Rightarrow> int \<Rightarrow> int \<Rightarrow> int \<Rightarrow> int \<Rightarrow> 'a list
     \<Rightarrow> failure + 'a list" where
  "copy_rows emit block x_off y_off y actual_width actual_height dst =
     (if y < actual_height
      then
        (let src = wrap_int (wrap_int (y_off + y) * pitch block)
                     + wrap_int (x_off * pixelSize block)
         in case copy_row emit block src 0 actual_width dst of
              Inl e \<Rightarrow> Inl e
            | Inr dst' \<Rightarrow>
                copy_rows emit block x_off y_off (y + 1) actual_width actual_height dst')
      else Inr dst)"
  by pat_completeness auto
termination
  by (relation "measure (\<lambda>(emit, block, x_off, y_off, y, actual_width, actual_height, dst).
                   nat (actual_height - y))")
    auto

declare copy_row.simps [simp del] copy_rows.simps [simp del]

text \<open>
  What follows the two native calls (lines 308--395) works on the block alone: the
  options, the region, the result hash, and the copy of the pixels.
\<close>

definition get_image_result :: "Tk_PhotoImageBlock \<Rightarrow> VALUE \<Rightarrow> failure + VALUE" where
  "get_image_result block opts =
     (let img_width = width block; img_height = height block
      in
        and_then (get_image_opts opts img_width img_height)
          (\<lambda>(x_off, y_off, req_width, req_height, do_unpack).
        and_then (clamp_region img_width img_height x_off y_off req_width req_height)
          (\<lambda>(x_off, y_off, actual_width, actual_height).
        let result = rb_hash_new;
            result = rb_hash_aset result (ID2SYM (rb_intern ''width'')) (INT2NUM actual_width);
            result = rb_hash_aset result (ID2SYM (rb_intern ''height'')) (INT2NUM actual_height)
        in
          if do_unpack \<noteq> 0
          then
            and_then (copy_rows (\<lambda>v. INT2FIX (of_char v)) block x_off y_off 0
                        actual_width actual_height [])
              (\<lambda>pixels.
            Inr (rb_hash_aset result (ID2SYM (rb_intern ''pixels'')) (RArray pixels)))
          else
            and_then (copy_rows (\<lambda>v. v) block x_off y_off 0 actual_width actual_height [])
              (\<lambda>data_str.
            Inr (rb_hash_aset result (ID2SYM (rb_intern ''data'')) (RString data_str))))))"

definition interp_photo_get_image :: "VALUE \<Rightarrow> VALUE \<Rightarrow> VALUE binding" where
  "interp_photo_get_image photo_path opts =
     then_do (lift (StringValue photo_path)) (\<lambda>photo_path.
     then_do (lift (StringValueCStr photo_path)) (\<lambda>name.
     then_do (native (Tk_FindPhoto name)) (\<lambda>photo.
     case photo of
       None \<Rightarrow> lift (rb_raise eTclError ''photo image not found: %s'' [ArgStr name])
     | Some photo \<Rightarrow>
         then_do (native (Tk_PhotoGetImage photo)) (\<lambda>(ok, block).
         if ok = 0 then lift (rb_raise eTclError ''failed to get photo image data'' [])
         else lift (get_image_result block opts)))))"

section \<open>The documented channel permutation\<close>

text \<open>
  The specification's mapping for a buffer written as ARGB and read back as RGBA, in its
  own words: of every pixel of four bytes, the bytes read are those written at offsets
  2, 1, 0 and 3. This definition follows the specification, not the code.
\<close>

fun argb_to_rgba :: "char list \<Rightarrow> char list" where
  "argb_to_rgba (b # g # r # a # rest) = r # g # b # a # argb_to_rgba rest"
| "argb_to_rgba rest = []"

section \<open>Example states\<close>

text \<open>Concrete interpreters on which the theorems below are instantiated.\<close>

definition blank_interp :: Tcl_Interp where
  "blank_interp =
     \<lparr>photos = (\<lambda>name. None), mainWindow = None, windowAt = (\<lambda>x y. None),
      result_string = [], alloc_limit = 1000000, native_calls = []\<rparr>"

definition root_window :: Tk_Window where
  "root_window = \<lparr>pathName = Some ''.''\<rparr>"

definition dying_window :: Tk_Window where
  "dying_window = \<lparr>pathName = None\<rparr>"

text \<open>
  A display with the main window on the left half-plane and a window that has lost its
  path name at the origin.
\<close>

definition tk_interp :: Tcl_Interp where
  "tk_interp =
     \<lparr>photos = (\<lambda>name. None), mainWindow = Some root_window,
      windowAt = (\<lambda>x y. if x = 0 \<and> y = 0 then Some dying_window
                          else if x < 0 then Some root_window else None),
      result_string = [], alloc_limit = 1000000, native_calls = []\<rparr>"

text \<open>
  An interpreter with two photo images: \<^verbatim>\<open>i00001\<close>, created without a size and still
  empty, and \<^verbatim>\<open>i00002\<close>, two pixels wide and two high.
\<close>

definition empty_photo :: PhotoMaster where
  "empty_photo = \<lparr>pm_width = 0, pm_height = 0, userWidth = 0, userHeight = 0, pix32 = []\<rparr>"

definition small_photo :: PhotoMaster where
  "small_photo =
     \<lparr>pm_width = 2, pm_height = 2, userWidth = 0, userHeight = 0,
      pix32 = ''rgbaRGBAstuvSTUV''\<rparr>"

definition photo_interp :: Tcl_Interp where
  "photo_interp =
     \<lparr>photos = (\<lambda>name. if name = ''i00001'' then Some empty_photo
                       else if name = ''i00002'' then Some small_photo else None),
      mainWindow = Some root_window, windowAt = (\<lambda>x y. None),
      result_string = [], alloc_limit = 1000000, native_calls = []\<rparr>"

text \<open>
  An interpreter whose image \<^verbatim>\<open>i00003\<close> was created with \<^verbatim>\<open>-width 1 -height 1\<close>:
  one pixel, and a user-requested size that Tk does not let a write exceed.
\<close>

definition sized_photo :: PhotoMaster where
  "sized_photo =
     \<lparr>pm_width = 1, pm_height = 1, userWidth = 1, userHeight = 1, pix32 = ''rgba''\<rparr>"

definition sized_interp :: Tcl_Interp where
  "sized_interp =
     \<lparr>photos = (\<lambda>name. if name = ''i00003'' then Some sized_photo else None),
      mainWindow = Some root_window, windowAt = (\<lambda>x y. None),
      result_string = [], alloc_limit = 1000000, native_calls = []\<rparr>"

text \<open>The options \<^verbatim>\<open>x:, y:, width:, height:\<close> that name a region.\<close>

definition region_opts :: "int \<Rightarrow> int \<Rightarrow> int \<Rightarrow> int \<Rightarrow> VALUE" where
  "region_opts x y w h =
     RHash [(RSymbol ''x'', RInteger x), (RSymbol ''y'', RInteger y),
            (RSymbol ''width'', RInteger w), (RSymbol ''height'', RInteger h)]"

section \<open>Properties of tkutil.c\<close>

text \<open>
  C8. Splitting nil or the empty string yields the empty array, raises nothing, and
  leaves the interpreter untouched: the list parser is not even called.
\<close>

theorem tcl_split_list_nil_or_empty:
  assumes "list_str = Qnil \<or> list_str = RString []"
  shows "interp_tcl_split_list parse list_str s = (Inr (RArray []), s)"
  using assms
  by (auto simp: interp_tcl_split_list_def NIL_P_def StringValue_def RSTRING_LEN_def
      rb_ary_new_def)

theorem tcl_split_list_nil_or_empty_witness:
  "interp_tcl_split_list (\<lambda>str. None) Qnil blank_interp = (Inr (RArray []), blank_interp)
   \<and> interp_tcl_split_list (\<lambda>str. None) (RString []) blank_interp
       = (Inr (RArray []), blank_interp)"
  using tcl_split_list_nil_or_empty [of Qnil "\<lambda>str. None" blank_interp]
    tcl_split_list_nil_or_empty [of "RString []" "\<lambda>str. None" blank_interp]
  by simp

text \<open>
  C9, as stated, fails: the hit test first asks for the main window and raises
  \<open>eTclError\<close> when there is none, although then no window contains the coordinates.
\<close>

theorem coords_to_window_no_main_window_counterexample:
  "windowAt blank_interp 0 0 = None
   \<and> fst (interp_coords_to_window (RInteger 0) (RInteger 0) blank_interp)
       = Inl (Raised eTclError ''Tk not initialized (no main window)'' [])"
  by (simp add: interp_coords_to_window_def blank_interp_def Tk_MainWindow_def rb_raise_def)

text \<open>
  C9, amended. When the application has a main window and the coordinates are Integers
  in the range of a C \<^verbatim>\<open>int\<close>, a hit test at coordinates that no window contains, or
  whose window has no path name, returns nil and raises nothing.
\<close>

theorem coords_to_window_none:
  assumes "mainWindow s = Some mainWin"
    and "INT_MIN \<le> x" and "x \<le> INT_MAX" and "INT_MIN \<le> y" and "y \<le> INT_MAX"
    and "windowAt s x y = None \<or> (\<exists>w. windowAt s x y = Some w \<and> pathName w = None)"
  shows "fst (interp_coords_to_window (RInteger x) (RInteger y) s) = Inr Qnil"
  using assms
  by (auto simp: interp_coords_to_window_def Tk_MainWindow_def NUM2INT_def
      Tk_CoordsToWindow_def Tk_PathName_def called_def)

theorem coords_to_window_none_witness:
  "mainWindow tk_interp = Some root_window
   \<and> windowAt tk_interp 5 7 = None
   \<and> fst (interp_coords_to_window (RInteger 5) (RInteger 7) tk_interp) = Inr Qnil
   \<and> windowAt tk_interp 0 0 = Some dying_window \<and> pathName dying_window = None
   \<and> fst (interp_coords_to_window (RInteger 0) (RInteger 0) tk_interp) = Inr Qnil"
proof -
  have m: "mainWindow tk_interp = Some root_window"
    by (simp add: tk_interp_def)
  have a: "windowAt tk_interp 5 7 = None"
    by (simp add: tk_interp_def)
  have b: "windowAt tk_interp 0 0 = Some dying_window" "pathName dying_window = None"
    by (simp_all add: tk_interp_def dying_window_def)
  have r: "INT_MIN \<le> 5" "5 \<le> INT_MAX" "INT_MIN \<le> 7" "7 \<le> INT_MAX"
    "INT_MIN \<le> 0" "0 \<le> INT_MAX"
    by (simp_all add: INT_MIN_def INT_MAX_def)
  from coords_to_window_none [OF m r(1) r(2) r(3) r(4)] a
  have "fst (interp_coords_to_window (RInteger 5) (RInteger 7) tk_interp) = Inr Qnil"
    by blast
  moreover from coords_to_window_none [OF m r(5) r(6) r(5) r(6)] b
  have "fst (interp_coords_to_window (RInteger 0) (RInteger 0) tk_interp) = Inr Qnil"
    by blast
  ultimately show ?thesis using m a b by simp
qed

text \<open>
  The other side of the guard, for every state and every pair of arguments: without a
  main window the hit test raises the \<open>eTclError\<close>, before the coordinates are even
  converted.
\<close>

lemma coords_to_window_uninitialized:
  assumes "mainWindow s = None"
  shows "fst (interp_coords_to_window root_x root_y s)
           = Inl (Raised eTclError ''Tk not initialized (no main window)'' [])"
  using assms by (simp add: interp_coords_to_window_def Tk_MainWindow_def rb_raise_def)

section \<open>Properties of tkphoto.c: validation\<close>

lemmas binding_defs = then_do_def lift_def native_def native_write_def raise_tcl_result_def
  and_then_def rb_raise_def

text \<open>
  The size check compares \<^verbatim>\<open>RSTRING_LEN\<close> with a product computed in \<^verbatim>\<open>long\<close>.
  For positive \<^verbatim>\<open>int\<close> factors the product \<open>w * h\<close> fits; multiplied by 4 it may
  wrap, but then to a negative number, which no length equals. So a length that differs
  from the true product also differs from the computed one.
\<close>

lemma wrap_long_times4:
  assumes "0 < p" "p < 2 ^ 62" "0 \<le> n" "n \<noteq> p * 4"
  shows "n \<noteq> wrap_long (wrap_long p * 4)"
proof -
  have w1: "wrap_long p = p"
    unfolding wrap_long_def using assms
    by (simp add: signed_take_bit_int_eq_self_iff)
  show ?thesis
  proof (cases "p * 4 < 2 ^ 63")
    case True
    then have "wrap_long (p * 4) = p * 4"
      unfolding wrap_long_def using assms
      by (simp add: signed_take_bit_int_eq_self_iff)
    then show ?thesis using assms(4) by (simp add: w1)
  next
    case False
    then have big: "2 ^ 63 \<le> p * 4" by simp
    then have "signed_take_bit 63 (p * 4) \<le> p * 4 - 2 ^ Suc 63"
      by (rule signed_take_bit_int_less_eq)
    moreover have "p * 4 - 2 ^ Suc 63 < (0::int)"
      using assms by simp
    ultimately have "signed_take_bit 63 (p * 4) < 0"
      by (rule order_le_less_trans)
    then have "wrap_long (p * 4) < 0"
      by (simp only: wrap_long_def)
    then show ?thesis using assms(3) big by (simp add: w1)
  qed
qed

lemma expected_size_mismatch:
  assumes "0 < w" "w \<le> INT_MAX" "0 < h" "h \<le> INT_MAX" "0 \<le> n" "n \<noteq> w * h * 4"
  shows "n \<noteq> wrap_long (wrap_long (w * h) * 4)"
proof -
  have wh: "0 < w * h" using assms by simp
  have "w * h \<le> INT_MAX * INT_MAX"
    using assms by (intro mult_mono) auto
  then have whb: "w * h < 2 ^ 62" by (simp add: INT_MAX_def)
  show ?thesis by (rule wrap_long_times4 [OF wh whb assms(5) assms(6)])
qed

text \<open>
  The 64 bits of \<^verbatim>\<open>long\<close> carry this argument. Computed in 32 bits, the product for
  width 65536 and height 16384 would wrap to 0, the length of the empty buffer; in 64
  bits it is exact.
\<close>

lemma expected_size_needs_64_bits:
  "signed_take_bit 31 (signed_take_bit 31 (65536 * 16384 :: int) * 4) = 0
   \<and> wrap_long (wrap_long (65536 * 16384) * 4) = 4294967296"
  by (simp add: wrap_long_def)

text \<open>
  C1. For a path and a buffer that are strings and a positive width and height (C
  \<^verbatim>\<open>int\<close>s), a buffer whose length is not \<open>width * height * 4\<close> makes both block
  writes raise the size-mismatch \<open>rb_eArgError\<close>, and the interpreter is left exactly as
  it was: no native entry point has been called, no image looked up or changed.
\<close>

theorem put_block_size_mismatch:
  assumes "0 < w" "w \<le> INT_MAX" "0 < h" "h \<le> INT_MAX"
    and "int (length data) \<noteq> w * h * 4"
  shows "interp_photo_put_block (RString path) (RString data) (RInteger w) (RInteger h) opts s
          = (Inl (Raised rb_eArgError ''pixel_data size mismatch: expected %ld bytes, got %ld''
                   [ArgLong (wrap_long (wrap_long (w * h) * 4)), ArgLong (int (length data))]), s)
       \<and> interp_photo_put_zoomed_block (RString path) (RString data) (RInteger w) (RInteger h)
            opts s
          = (Inl (Raised rb_eArgError ''pixel_data size mismatch: expected %ld bytes, got %ld''
                   [ArgLong (wrap_long (wrap_long (w * h) * 4)), ArgLong (int (length data))]), s)"
proof -
  have ne: "int (length data) \<noteq> wrap_long (wrap_long (w * h) * 4)"
    by (rule expected_size_mismatch [OF assms(1-4) _ assms(5)]) simp
  have r: "\<not> w < INT_MIN" "\<not> INT_MAX < w" "\<not> h < INT_MIN" "\<not> INT_MAX < h"
    using assms by (simp_all add: INT_MIN_def)
  show ?thesis
    using ne r assms(1,3)
    by (simp add: interp_photo_put_block_def interp_photo_put_zoomed_block_def binding_defs
        StringValue_def NUM2INT_def RSTRING_LEN_def Let_def)
qed

theorem put_block_size_mismatch_witness:
  "interp_photo_put_block (RString ''i00002'') (RString ''rgbaRGB'') (RInteger 2) (RInteger 1)
     Qnil photo_interp
     = (Inl (Raised rb_eArgError ''pixel_data size mismatch: expected %ld bytes, got %ld''
              [ArgLong 8, ArgLong 7]), photo_interp)
   \<and> interp_photo_put_zoomed_block (RString ''i00002'') (RString ''rgbaRGB'') (RInteger 2)
       (RInteger 1) Qnil photo_interp
     = (Inl (Raised rb_eArgError ''pixel_data size mismatch: expected %ld bytes, got %ld''
              [ArgLong 8, ArgLong 7]), photo_interp)"
  using put_block_size_mismatch [of 2 1 "''rgbaRGB''" "''i00002''" Qnil photo_interp]
  by (simp add: INT_MAX_def wrap_long_def)

subsection \<open>Factors of the zoomed write\<close>

lemma zoom_opts_example:
  "put_zoomed_block_opts (RHash [(RSymbol ''zoom_x'', RInteger 0)]) = Inr (0, 0, 0, 1, 1, 1, 0)"
  "put_zoomed_block_opts (RHash [(RSymbol ''subsample_y'', RInteger (- 2))])
     = Inr (0, 0, 1, 1, 1, - 2, 0)"
  by (simp_all add: put_zoomed_block_opts_def NIL_P_def opt_int_def rb_hash_aref_def ID2SYM_def
      rb_intern_def NUM2INT_def INT_MIN_def INT_MAX_def and_then_def opt_is_argb_def)

text \<open>
  C7. When the options of a zoomed write convert and one of the four factors is not
  positive, the binding raises an \<open>rb_eArgError\<close> and the interpreter is left as it was:
  no native call, so no native write. (With valid dimensions and buffer the message is
  the one of the factor check, lemma \<open>put_zoomed_block_factor_message\<close>.)
\<close>

theorem put_zoomed_block_rejects_factors:
  assumes "INT_MIN \<le> w" "w \<le> INT_MAX" "INT_MIN \<le> h" "h \<le> INT_MAX"
    and "put_zoomed_block_opts opts
           = Inr (x_off, y_off, zoom_x, zoom_y, subsample_x, subsample_y, is_argb)"
    and "zoom_x \<le> 0 \<or> zoom_y \<le> 0 \<or> subsample_x \<le> 0 \<or> subsample_y \<le> 0"
  shows "\<exists>fmt args.
           interp_photo_put_zoomed_block (RString path) (RString data) (RInteger w) (RInteger h)
             opts s
             = (Inl (Raised rb_eArgError fmt args), s)"
  using assms
  by (auto simp: interp_photo_put_zoomed_block_def binding_defs
        StringValue_def NUM2INT_def RSTRING_LEN_def Let_def)

theorem put_zoomed_block_rejects_factors_witness:
  "put_zoomed_block_opts (RHash [(RSymbol ''zoom_x'', RInteger 0)]) = Inr (0, 0, 0, 1, 1, 1, 0)
   \<and> (\<exists>fmt args.
        interp_photo_put_zoomed_block (RString ''i00002'') (RString ''rgba'') (RInteger 1)
          (RInteger 1) (RHash [(RSymbol ''zoom_x'', RInteger 0)]) photo_interp
        = (Inl (Raised rb_eArgError fmt args), photo_interp))
   \<and> put_zoomed_block_opts (RHash [(RSymbol ''subsample_y'', RInteger (- 2))])
       = Inr (0, 0, 1, 1, 1, - 2, 0)
   \<and> (\<exists>fmt args.
        interp_photo_put_zoomed_block (RString ''i00002'') (RString ''rgba'') (RInteger 1)
          (RInteger 1) (RHash [(RSymbol ''subsample_y'', RInteger (- 2))]) photo_interp
        = (Inl (Raised rb_eArgError fmt args), photo_interp))"
proof -
  have r: "INT_MIN \<le> 1" "1 \<le> INT_MAX"
    by (simp_all add: INT_MIN_def INT_MAX_def)
  have z: "(0::int) \<le> 0 \<or> (1::int) \<le> 0 \<or> (1::int) \<le> 0 \<or> (1::int) \<le> 0"
    and y: "(1::int) \<le> 0 \<or> (1::int) \<le> 0 \<or> (1::int) \<le> 0 \<or> (- 2::int) \<le> 0"
    by simp_all
  show ?thesis
    using put_zoomed_block_rejects_factors [OF r r zoom_opts_example(1) z]
      put_zoomed_block_rejects_factors [OF r r zoom_opts_example(2) y]
    by (simp add: zoom_opts_example)
qed

lemma put_zoomed_block_factor_message:
  assumes "0 < w" "w \<le> INT_MAX" "0 < h" "h \<le> INT_MAX"
    and "int (length data) = wrap_long (wrap_long (w * h) * 4)"
    and "put_zoomed_block_opts opts
           = Inr (x_off, y_off, zoom_x, zoom_y, subsample_x, subsample_y, is_argb)"
    and "zoom_x \<le> 0 \<or> zoom_y \<le> 0 \<or> subsample_x \<le> 0 \<or> subsample_y \<le> 0"
  shows "interp_photo_put_zoomed_block (RString path) (RString data) (RInteger w) (RInteger h)
           opts s
         = (Inl (Raised rb_eArgError
                  (if zoom_x \<le> 0 \<or> zoom_y \<le> 0 then ''zoom factors must be positive''
                   else ''subsample factors must be positive'') []), s)"
  using assms
  by (auto simp: interp_photo_put_zoomed_block_def binding_defs
        StringValue_def NUM2INT_def RSTRING_LEN_def Let_def INT_MIN_def)

subsection \<open>Which errors precede the native calls\<close>

lemma then_do_lift:
  "then_do (lift r) f s = (case r of Inl e \<Rightarrow> (Inl e, s) | Inr x \<Rightarrow> f x s)"
  by (simp add: then_do_def lift_def split: sum.split)

text \<open>
  A block write ends in one of four ways: in the state it started from, with an
  \<open>eTclError\<close>, with a memory fault, or with nil.
\<close>

lemma put_block_outcomes:
  "snd (interp_photo_put_block pp pd wv hv opts s) = s
   \<or> (\<exists>fmt args. fst (interp_photo_put_block pp pd wv hv opts s)
                    = Inl (Raised eTclError fmt args))
   \<or> fst (interp_photo_put_block pp pd wv hv opts s) = Inl MemoryFault
   \<or> fst (interp_photo_put_block pp pd wv hv opts s) = Inr Qnil"
  by (simp add: interp_photo_put_block_def then_do_lift Let_def lift_def
        then_do_def native_def native_write_def raise_tcl_result_def rb_raise_def
      split: sum.split option.split prod.split)

lemma put_zoomed_block_outcomes:
  "snd (interp_photo_put_zoomed_block pp pd wv hv opts s) = s
   \<or> (\<exists>fmt args. fst (interp_photo_put_zoomed_block pp pd wv hv opts s)
                    = Inl (Raised eTclError fmt args))
   \<or> fst (interp_photo_put_zoomed_block pp pd wv hv opts s) = Inl MemoryFault
   \<or> fst (interp_photo_put_zoomed_block pp pd wv hv opts s) = Inr Qnil"
  by (simp add: interp_photo_put_zoomed_block_def then_do_lift Let_def lift_def
        then_do_def native_def native_write_def raise_tcl_result_def rb_raise_def
      split: sum.split option.split prod.split)

text \<open>
  A read either has called \<^verbatim>\<open>Tk_FindPhoto\<close> and \<^verbatim>\<open>Tk_PhotoGetImage\<close> (and changed
  no image), or does not end with one of the two errors of the region check.
\<close>

lemma get_image_outcomes:
  "((\<exists>name. native_calls (snd (interp_photo_get_image pp opts s))
        = native_calls s @ [Call_Tk_FindPhoto name, Call_Tk_PhotoGetImage name])
      \<and> photos (snd (interp_photo_get_image pp opts s)) = photos s)
   \<or> (\<forall>args. fst (interp_photo_get_image pp opts s)
            \<noteq> Inl (Raised rb_eArgError ''offset outside image bounds'' args)
          \<and> fst (interp_photo_get_image pp opts s)
            \<noteq> Inl (Raised rb_eArgError ''invalid region size'' args))"
  by (simp add: interp_photo_get_image_def then_do_lift Let_def lift_def
        then_do_def native_def rb_raise_def StringValue_def StringValueCStr_def
        Tk_FindPhoto_def Tk_PhotoGetImage_def called_def
      split: sum.split option.split prod.split VALUE.split)

lemma lift_apply: "lift r s = (r, s)"
  by (simp add: lift_def)

lemma put_block_bad_dims:
  "fst (interp_photo_put_block (RString ''i00002'') (RString []) (RInteger 0) (RInteger 1) Qnil
      photo_interp) = Inl (Raised rb_eArgError ''width and height must be positive'' [])"
  "fst (interp_photo_put_zoomed_block (RString ''i00002'') (RString []) (RInteger 0) (RInteger 1)
      Qnil photo_interp) = Inl (Raised rb_eArgError ''width and height must be positive'' [])"
  by (simp_all add: interp_photo_put_block_def interp_photo_put_zoomed_block_def then_do_lift
      StringValue_def NUM2INT_def INT_MIN_def INT_MAX_def rb_raise_def lift_apply)

lemma get_image_bad_offset:
  "fst (interp_photo_get_image (RString ''i00002'') (RHash [(RSymbol ''x'', RInteger 5)])
          photo_interp)
     = Inl (Raised rb_eArgError ''offset outside image bounds'' [])"
  by (simp add: interp_photo_get_image_def then_do_lift StringValue_def StringValueCStr_def
      then_do_def native_def Tk_FindPhoto_def photo_interp_def called_def Tk_PhotoGetImage_def
      small_photo_def lift_def get_image_result_def get_image_opts_def NIL_P_def opt_int_def
      rb_hash_aref_def ID2SYM_def rb_intern_def NUM2INT_def INT_MIN_def INT_MAX_def and_then_def
      clamp_region_def rb_raise_def)

text \<open>
  C6, as stated, fails for the read: the region can only be checked against the size of
  the image, so \<^verbatim>\<open>Tk_FindPhoto\<close> and \<^verbatim>\<open>Tk_PhotoGetImage\<close> have both been called when
  "offset outside image bounds" is raised. Here the image is 2 by 2 and \<^verbatim>\<open>x: 5\<close>.
\<close>

theorem get_image_region_error_after_native_calls_counterexample:
  "fst (interp_photo_get_image (RString ''i00002'') (RHash [(RSymbol ''x'', RInteger 5)])
          photo_interp)
     = Inl (Raised rb_eArgError ''offset outside image bounds'' [])
   \<and> native_calls photo_interp = []
   \<and> native_calls (snd (interp_photo_get_image (RString ''i00002'')
          (RHash [(RSymbol ''x'', RInteger 5)]) photo_interp))
     = [Call_Tk_FindPhoto ''i00002'', Call_Tk_PhotoGetImage ''i00002'']"
  by (simp add: interp_photo_get_image_def then_do_lift StringValue_def StringValueCStr_def
      then_do_def native_def Tk_FindPhoto_def photo_interp_def called_def Tk_PhotoGetImage_def
      small_photo_def lift_def get_image_result_def get_image_opts_def NIL_P_def opt_int_def
      rb_hash_aref_def ID2SYM_def rb_intern_def NUM2INT_def INT_MIN_def INT_MAX_def and_then_def
      clamp_region_def rb_raise_def)

text \<open>
  C6, amended. In both block writes every \<open>rb_eArgError\<close> (non-positive dimensions,
  buffer-size mismatch, non-positive factors) is raised in the state the call started
  from, before any native call. In the read, the two errors of the region check are
  raised after exactly the calls \<^verbatim>\<open>Tk_FindPhoto\<close> and \<^verbatim>\<open>Tk_PhotoGetImage\<close>, which
  change no image.
\<close>

theorem validation_errors_and_native_calls:
  "(fst (interp_photo_put_block pp pd wv hv opts s) = Inl (Raised rb_eArgError fmt args)
      \<longrightarrow> snd (interp_photo_put_block pp pd wv hv opts s) = s)
   \<and> (fst (interp_photo_put_zoomed_block pp pd wv hv opts s) = Inl (Raised rb_eArgError fmt args)
      \<longrightarrow> snd (interp_photo_put_zoomed_block pp pd wv hv opts s) = s)
   \<and> (fst (interp_photo_get_image pp opts s) = Inl (Raised rb_eArgError fmt args)
        \<and> (fmt = ''offset outside image bounds'' \<or> fmt = ''invalid region size'')
      \<longrightarrow> (\<exists>name. native_calls (snd (interp_photo_get_image pp opts s))
                    = native_calls s @ [Call_Tk_FindPhoto name, Call_Tk_PhotoGetImage name])
          \<and> photos (snd (interp_photo_get_image pp opts s)) = photos s)"
proof (intro conjI impI)
  assume "fst (interp_photo_put_block pp pd wv hv opts s) = Inl (Raised rb_eArgError fmt args)"
  then show "snd (interp_photo_put_block pp pd wv hv opts s) = s"
    using put_block_outcomes [of pp pd wv hv opts s] by auto
next
  assume "fst (interp_photo_put_zoomed_block pp pd wv hv opts s)
            = Inl (Raised rb_eArgError fmt args)"
  then show "snd (interp_photo_put_zoomed_block pp pd wv hv opts s) = s"
    using put_zoomed_block_outcomes [of pp pd wv hv opts s] by auto
next
  assume a: "fst (interp_photo_get_image pp opts s) = Inl (Raised rb_eArgError fmt args)
        \<and> (fmt = ''offset outside image bounds'' \<or> fmt = ''invalid region size'')"
  then show "\<exists>name. native_calls (snd (interp_photo_get_image pp opts s))
                    = native_calls s @ [Call_Tk_FindPhoto name, Call_Tk_PhotoGetImage name]"
    using get_image_outcomes [of pp opts s] by auto
  from a show "photos (snd (interp_photo_get_image pp opts s)) = photos s"
    using get_image_outcomes [of pp opts s] by auto
qed

theorem validation_errors_and_native_calls_witness:
  "fst (interp_photo_put_block (RString ''i00002'') (RString []) (RInteger 0) (RInteger 1) Qnil
      photo_interp) = Inl (Raised rb_eArgError ''width and height must be positive'' [])
   \<and> snd (interp_photo_put_block (RString ''i00002'') (RString []) (RInteger 0) (RInteger 1) Qnil
      photo_interp) = photo_interp
   \<and> fst (interp_photo_put_zoomed_block (RString ''i00002'') (RString []) (RInteger 0)
      (RInteger 1) Qnil photo_interp)
      = Inl (Raised rb_eArgError ''width and height must be positive'' [])
   \<and> snd (interp_photo_put_zoomed_block (RString ''i00002'') (RString []) (RInteger 0)
      (RInteger 1) Qnil photo_interp) = photo_interp
   \<and> fst (interp_photo_get_image (RString ''i00002'') (RHash [(RSymbol ''x'', RInteger 5)])
          photo_interp)
     = Inl (Raised rb_eArgError ''offset outside image bounds'' [])
   \<and> (\<exists>name. native_calls (snd (interp_photo_get_image (RString ''i00002'')
                 (RHash [(RSymbol ''x'', RInteger 5)]) photo_interp))
               = native_calls photo_interp @ [Call_Tk_FindPhoto name, Call_Tk_PhotoGetImage name])
   \<and> photos (snd (interp_photo_get_image (RString ''i00002'')
                 (RHash [(RSymbol ''x'', RInteger 5)]) photo_interp)) = photos photo_interp"
  using validation_errors_and_native_calls
    [of "RString ''i00002''" "RString []" "RInteger 0" "RInteger 1" Qnil photo_interp
        "''width and height must be positive''" "[]"]
    validation_errors_and_native_calls
    [of "RString ''i00002''" "RString []" "RInteger 0" "RInteger 1"
        "RHash [(RSymbol ''x'', RInteger 5)]" photo_interp
        "''offset outside image bounds''" "[]"]
    put_block_bad_dims get_image_bad_offset
  by simp

section \<open>Properties of tkphoto.c: the pixel layout of a write\<close>

lemma wrap_long_id: "0 \<le> p \<Longrightarrow> p \<le> LONG_MAX \<Longrightarrow> wrap_long p = p"
  unfolding wrap_long_def
  by (simp add: signed_take_bit_int_eq_self_iff LONG_MAX_def)

lemma expected_size_match:
  assumes "0 < w" "0 < h" "n = w * h * 4" "n \<le> LONG_MAX"
  shows "wrap_long (wrap_long (w * h) * 4) = n"
proof -
  have wh: "0 < w * h" using assms by simp
  then have "w * h \<le> w * h * 4" by linarith
  then have "wrap_long (w * h) = w * h"
    using wh assms by (intro wrap_long_id) linarith+
  moreover have "wrap_long (w * h * 4) = w * h * 4"
    using wh assms by (intro wrap_long_id) linarith+
  ultimately show ?thesis using assms by simp
qed

text \<open>\<open>is_argb\<close> is set exactly when the value of \<^verbatim>\<open>:format\<close> is the symbol \<^verbatim>\<open>:argb\<close>.\<close>

lemma opt_is_argb_format:
  "opt_is_argb opts = (if rb_hash_aref opts (RSymbol ''format'') = RSymbol ''argb'' then 1 else 0)"
  by (cases "rb_hash_aref opts (RSymbol ''format'')")
     (auto simp: opt_is_argb_def ID2SYM_def rb_intern_def NIL_P_def SYM2ID_def Let_def)

lemma put_block_opts_format:
  assumes "put_block_opts opts = Inr (x_off, y_off, is_argb)"
  shows "block_offsets is_argb
           = (if rb_hash_aref opts (RSymbol ''format'') = RSymbol ''argb''
              then [2, 1, 0, 3] else [0, 1, 2, 3])"
proof (cases "\<not> NIL_P opts \<and> TYPE_of opts = T_HASH")
  case True
  then show ?thesis using assms
    by (auto simp: put_block_opts_def and_then_def opt_is_argb_format block_offsets_def
        split: sum.splits if_splits)
next
  case False
  then have "rb_hash_aref opts (RSymbol ''format'') = Qnil"
    by (cases opts) (simp_all add: rb_hash_aref_def NIL_P_def)
  then show ?thesis using assms False
    by (auto simp: put_block_opts_def block_offsets_def)
qed

lemma put_zoomed_block_opts_format:
  assumes "put_zoomed_block_opts opts = Inr (x_off, y_off, zx, zy, sx, sy, is_argb)"
  shows "block_offsets is_argb
           = (if rb_hash_aref opts (RSymbol ''format'') = RSymbol ''argb''
              then [2, 1, 0, 3] else [0, 1, 2, 3])"
proof (cases "\<not> NIL_P opts \<and> TYPE_of opts = T_HASH")
  case True
  then show ?thesis using assms
    by (auto simp: put_zoomed_block_opts_def and_then_def opt_is_argb_format block_offsets_def
        split: sum.splits if_splits)
next
  case False
  then have "rb_hash_aref opts (RSymbol ''format'') = Qnil"
    by (cases opts) (simp_all add: rb_hash_aref_def NIL_P_def)
  then show ?thesis using assms False
    by (auto simp: put_zoomed_block_opts_def block_offsets_def)
qed

text \<open>The native calls of a write whose arguments pass every check.\<close>

lemma put_block_native_calls:
  assumes "CHR 0x00 \<notin> set path" "photos s path = Some m"
    and "0 < w" "w \<le> INT_MAX" "0 < h" "h \<le> INT_MAX"
    and "int (length data) = w * h * 4" "int (length data) \<le> LONG_MAX"
    and "put_block_opts opts = Inr (x_off, y_off, is_argb)"
  shows "native_calls (snd (interp_photo_put_block (RString path) (RString data) (RInteger w)
            (RInteger h) opts s))
       = native_calls s @
          [Call_Tk_FindPhoto path,
           Call_Tk_PhotoPutBlock path
             \<lparr>pixelPtr = data, width = w, height = h, pitch = wrap_int (w * 4), pixelSize = 4,
              offset = block_offsets is_argb\<rparr>
             x_off y_off w h]"
proof -
  have sz: "wrap_long (wrap_long (w * h) * 4) = int (length data)"
    by (rule expected_size_match [OF assms(3) assms(5) assms(7) assms(8)])
  have r: "\<not> w < INT_MIN" "\<not> INT_MAX < w" "\<not> h < INT_MIN" "\<not> INT_MAX < h"
    using assms by (simp_all add: INT_MIN_def)
  show ?thesis
    using sz r assms(1,2,3,5,9)
    by (simp add: interp_photo_put_block_def then_do_lift StringValue_def NUM2INT_def
        RSTRING_LEN_def Let_def StringValueCStr_def then_do_def native_def Tk_FindPhoto_def
        called_def native_write_def Tk_PhotoPutBlock_def write_photo_def raise_tcl_result_def
        lift_def
        split: option.split prod.split)
qed

lemma put_zoomed_block_native_calls:
  assumes "CHR 0x00 \<notin> set path" "photos s path = Some m"
    and "0 < w" "w \<le> INT_MAX" "0 < h" "h \<le> INT_MAX"
    and "int (length data) = w * h * 4" "int (length data) \<le> LONG_MAX"
    and "put_zoomed_block_opts opts = Inr (x_off, y_off, zx, zy, sx, sy, is_argb)"
    and "0 < zx" "0 < zy" "0 < sx" "0 < sy"
  shows "native_calls (snd (interp_photo_put_zoomed_block (RString path) (RString data)
            (RInteger w) (RInteger h) opts s))
       = native_calls s @
          [Call_Tk_FindPhoto path,
           Call_Tk_PhotoPutZoomedBlock path
             \<lparr>pixelPtr = data, width = w, height = h, pitch = wrap_int (w * 4), pixelSize = 4,
              offset = block_offsets is_argb\<rparr>
             x_off y_off (wrap_int ((w div sx) * zx)) (wrap_int ((h div sy) * zy))
             zx zy sx sy]"
proof -
  have sz: "wrap_long (wrap_long (w * h) * 4) = int (length data)"
    by (rule expected_size_match [OF assms(3) assms(5) assms(7) assms(8)])
  have r: "\<not> w < INT_MIN" "\<not> INT_MAX < w" "\<not> h < INT_MIN" "\<not> INT_MAX < h"
    using assms by (simp_all add: INT_MIN_def)
  have z: "\<not> zx \<le> 0" "\<not> zy \<le> 0" "\<not> sx \<le> 0" "\<not> sy \<le> 0"
    using assms by simp_all
  show ?thesis
    using sz r z assms(1,2,3,5,9)
    by (simp add: interp_photo_put_zoomed_block_def then_do_lift StringValue_def NUM2INT_def
        RSTRING_LEN_def Let_def StringValueCStr_def then_do_def native_def Tk_FindPhoto_def
        called_def native_write_def Tk_PhotoPutZoomedBlock_def write_photo_def
        raise_tcl_result_def lift_def
        split: option.split prod.split)
qed

text \<open>
  C2. A write whose arguments pass every check hands Tk a block of four bytes per pixel
  whose channel offsets \<open>offset[0..3]\<close> (red, green, blue, alpha) are \<open>2, 1, 0, 3\<close> when
  the \<^verbatim>\<open>:format\<close> option is the symbol \<^verbatim>\<open>:argb\<close> (blue at byte 0, green at 1, red at
  2, alpha at 3) and \<open>0, 1, 2, 3\<close> otherwise, in particular when the option is absent or
  \<^verbatim>\<open>:rgba\<close>. This holds for both block writes.
\<close>

theorem put_block_channel_offsets:
  assumes "CHR 0x00 \<notin> set path" "photos s path = Some m"
    and "0 < w" "w \<le> INT_MAX" "0 < h" "h \<le> INT_MAX"
    and "int (length data) = w * h * 4" "int (length data) \<le> LONG_MAX"
  shows "(put_block_opts opts = Inr (x_off, y_off, is_argb) \<longrightarrow>
           native_calls (snd (interp_photo_put_block (RString path) (RString data) (RInteger w)
              (RInteger h) opts s))
           = native_calls s @
              [Call_Tk_FindPhoto path,
               Call_Tk_PhotoPutBlock path
                 \<lparr>pixelPtr = data, width = w, height = h, pitch = wrap_int (w * 4),
                  pixelSize = 4,
                  offset = (if rb_hash_aref opts (RSymbol ''format'') = RSymbol ''argb''
                            then [2, 1, 0, 3] else [0, 1, 2, 3])\<rparr>
                 x_off y_off w h])
       \<and> (put_zoomed_block_opts opts = Inr (x_off, y_off, zx, zy, sx, sy, is_argb)
            \<and> 0 < zx \<and> 0 < zy \<and> 0 < sx \<and> 0 < sy \<longrightarrow>
           native_calls (snd (interp_photo_put_zoomed_block (RString path) (RString data)
              (RInteger w) (RInteger h) opts s))
           = native_calls s @
              [Call_Tk_FindPhoto path,
               Call_Tk_PhotoPutZoomedBlock path
                 \<lparr>pixelPtr = data, width = w, height = h, pitch = wrap_int (w * 4),
                  pixelSize = 4,
                  offset = (if rb_hash_aref opts (RSymbol ''format'') = RSymbol ''argb''
                            then [2, 1, 0, 3] else [0, 1, 2, 3])\<rparr>
                 x_off y_off (wrap_int ((w div sx) * zx)) (wrap_int ((h div sy) * zy))
                 zx zy sx sy])"
proof (intro conjI impI)
  assume o: "put_block_opts opts = Inr (x_off, y_off, is_argb)"
  show "native_calls (snd (interp_photo_put_block (RString path) (RString data) (RInteger w)
              (RInteger h) opts s))
           = native_calls s @
              [Call_Tk_FindPhoto path,
               Call_Tk_PhotoPutBlock path
                 \<lparr>pixelPtr = data, width = w, height = h, pitch = wrap_int (w * 4),
                  pixelSize = 4,
                  offset = (if rb_hash_aref opts (RSymbol ''format'') = RSymbol ''argb''
                            then [2, 1, 0, 3] else [0, 1, 2, 3])\<rparr>
                 x_off y_off w h]"
    unfolding put_block_opts_format [OF o, symmetric]
    by (rule put_block_native_calls [OF assms o])
next
  assume "put_zoomed_block_opts opts = Inr (x_off, y_off, zx, zy, sx, sy, is_argb)
            \<and> 0 < zx \<and> 0 < zy \<and> 0 < sx \<and> 0 < sy"
  then have o: "put_zoomed_block_opts opts = Inr (x_off, y_off, zx, zy, sx, sy, is_argb)"
    and z: "0 < zx" "0 < zy" "0 < sx" "0 < sy"
    by simp_all
  show "native_calls (snd (interp_photo_put_zoomed_block (RString path) (RString data)
              (RInteger w) (RInteger h) opts s))
           = native_calls s @
              [Call_Tk_FindPhoto path,
               Call_Tk_PhotoPutZoomedBlock path
                 \<lparr>pixelPtr = data, width = w, height = h, pitch = wrap_int (w * 4),
                  pixelSize = 4,
                  offset = (if rb_hash_aref opts (RSymbol ''format'') = RSymbol ''argb''
                            then [2, 1, 0, 3] else [0, 1, 2, 3])\<rparr>
                 x_off y_off (wrap_int ((w div sx) * zx)) (wrap_int ((h div sy) * zy))
                 zx zy sx sy]"
    unfolding put_zoomed_block_opts_format [OF o, symmetric]
    by (rule put_zoomed_block_native_calls [OF assms o z])
qed

lemma format_opts_example:
  "put_block_opts (RHash [(RSymbol ''format'', RSymbol ''argb'')]) = Inr (0, 0, 1)"
  "put_zoomed_block_opts (RHash [(RSymbol ''format'', RSymbol ''argb'')])
     = Inr (0, 0, 1, 1, 1, 1, 1)"
  "put_block_opts Qnil = Inr (0, 0, 0)"
  "put_zoomed_block_opts (RHash [(RSymbol ''format'', RSymbol ''rgba'')])
     = Inr (0, 0, 1, 1, 1, 1, 0)"
  by (simp_all add: put_block_opts_def put_zoomed_block_opts_def NIL_P_def opt_int_def
      rb_hash_aref_def ID2SYM_def rb_intern_def and_then_def opt_is_argb_def SYM2ID_def)

theorem put_block_channel_offsets_witness:
  "native_calls (snd (interp_photo_put_block (RString ''i00002'') (RString ''BGRA'') (RInteger 1)
       (RInteger 1) (RHash [(RSymbol ''format'', RSymbol ''argb'')]) photo_interp))
     = [Call_Tk_FindPhoto ''i00002'',
        Call_Tk_PhotoPutBlock ''i00002''
          \<lparr>pixelPtr = ''BGRA'', width = 1, height = 1, pitch = 4, pixelSize = 4,
           offset = [2, 1, 0, 3]\<rparr> 0 0 1 1]
   \<and> native_calls (snd (interp_photo_put_zoomed_block (RString ''i00002'') (RString ''BGRA'')
       (RInteger 1) (RInteger 1) (RHash [(RSymbol ''format'', RSymbol ''argb'')]) photo_interp))
     = [Call_Tk_FindPhoto ''i00002'',
        Call_Tk_PhotoPutZoomedBlock ''i00002''
          \<lparr>pixelPtr = ''BGRA'', width = 1, height = 1, pitch = 4, pixelSize = 4,
           offset = [2, 1, 0, 3]\<rparr> 0 0 1 1 1 1 1 1]
   \<and> native_calls (snd (interp_photo_put_block (RString ''i00002'') (RString ''RGBA'') (RInteger 1)
       (RInteger 1) Qnil photo_interp))
     = [Call_Tk_FindPhoto ''i00002'',
        Call_Tk_PhotoPutBlock ''i00002''
          \<lparr>pixelPtr = ''RGBA'', width = 1, height = 1, pitch = 4, pixelSize = 4,
           offset = [0, 1, 2, 3]\<rparr> 0 0 1 1]
   \<and> native_calls (snd (interp_photo_put_zoomed_block (RString ''i00002'') (RString ''RGBA'')
       (RInteger 1) (RInteger 1) (RHash [(RSymbol ''format'', RSymbol ''rgba'')]) photo_interp))
     = [Call_Tk_FindPhoto ''i00002'',
        Call_Tk_PhotoPutZoomedBlock ''i00002''
          \<lparr>pixelPtr = ''RGBA'', width = 1, height = 1, pitch = 4, pixelSize = 4,
           offset = [0, 1, 2, 3]\<rparr> 0 0 1 1 1 1 1 1]"
proof -
  have p: "CHR 0x00 \<notin> set ''i00002''" "photos photo_interp ''i00002'' = Some small_photo"
    by (simp_all add: photo_interp_def)
  have r: "(0::int) < 1" "1 \<le> INT_MAX"
    by (simp_all add: INT_MAX_def)
  have l: "int (length ''BGRA'') = 1 * 1 * 4" "int (length ''BGRA'') \<le> LONG_MAX"
    "int (length ''RGBA'') = 1 * 1 * 4" "int (length ''RGBA'') \<le> LONG_MAX"
    by (simp_all add: LONG_MAX_def)
  note a = put_block_channel_offsets [OF p r r l(1,2),
      of "RHash [(RSymbol ''format'', RSymbol ''argb'')]" 0 0 1 1 1 1 1]
  note b = put_block_channel_offsets [OF p r r l(3,4), of Qnil 0 0 0 1 1 1 1]
  note c = put_block_channel_offsets [OF p r r l(3,4),
      of "RHash [(RSymbol ''format'', RSymbol ''rgba'')]" 0 0 0 1 1 1 1]
  have w: "wrap_int 4 = 4" "wrap_int 1 = 1"
    by (simp_all add: wrap_int_def)
  have n: "native_calls photo_interp = []"
    by (simp add: photo_interp_def)
  show ?thesis
    using a b c
    by (simp add: format_opts_example rb_hash_aref_def w n)
qed

section \<open>Properties of tkphoto.c: the region of a read\<close>

lemma wrap_int_id: "INT_MIN \<le> n \<Longrightarrow> n \<le> INT_MAX \<Longrightarrow> wrap_int n = n"
  unfolding wrap_int_def
  by (simp add: signed_take_bit_int_eq_self_iff INT_MIN_def INT_MAX_def)

text \<open>
  C5 fails on the code. The image \<^verbatim>\<open>i00002\<close> is 2 by 2; the call asks for
  \<^verbatim>\<open>x: 1, width: 2147483647\<close>. The offset is inside the image and the region extends
  past its right edge, so the claim promises a region clamped to width 1. But the test
  \<^verbatim>\<open>x_off + actual_width > img_width\<close> adds in \<^verbatim>\<open>int\<close>: \<open>1 + 2147483647\<close> wraps to
  \<open>- 2147483648\<close>, the test fails, and the width stays 2147483647. The copy loop then
  leaves the pixel storage.
\<close>

theorem get_image_region_overflow:
  "clamp_region 2 2 1 0 2147483647 2 = Inr (1, 0, 2147483647, 2)
   \<and> fst (interp_photo_get_image (RString ''i00002'')
            (RHash [(RSymbol ''x'', RInteger 1), (RSymbol ''width'', RInteger 2147483647)])
            photo_interp)
       = Inl MemoryFault"
proof -
  have a: "clamp_region 2 2 1 0 2147483647 2 = Inr (1, 0, 2147483647, 2)"
    by (simp add: clamp_region_def wrap_int_def rb_raise_def)
  have o: "get_image_opts
             (RHash [(RSymbol ''x'', RInteger 1), (RSymbol ''width'', RInteger 2147483647)]) 2 2
           = Inr (1, 0, 2147483647, 2, 0)"
    by (simp add: get_image_opts_def NIL_P_def opt_int_def rb_hash_aref_def ID2SYM_def
        rb_intern_def NUM2INT_def INT_MIN_def INT_MAX_def and_then_def RTEST_def)
  have c: "copy_rows (\<lambda>v. v)
             \<lparr>pixelPtr = ''rgbaRGBAstuvSTUV'', width = 2, height = 2, pitch = 8, pixelSize = 4,
              offset = [0, 1, 2, 3]\<rparr> 1 0 0 2147483647 2 []
           = Inl MemoryFault"
    by (simp add: copy_rows.simps copy_row.simps wrap_int_def read_pixel_def peek_def)
  show ?thesis
    using a o c
    by (simp add: interp_photo_get_image_def then_do_lift StringValue_def StringValueCStr_def
      then_do_def native_def Tk_FindPhoto_def photo_interp_def called_def Tk_PhotoGetImage_def
      small_photo_def lift_def get_image_result_def and_then_def)
qed

text \<open>
  What the region check does when the two sums stay in the range of \<^verbatim>\<open>int\<close>: the
  behaviour the claim describes.
\<close>

lemma clamp_region_no_overflow:
  assumes "0 \<le> img_width" "img_width \<le> INT_MAX" "0 \<le> img_height" "img_height \<le> INT_MAX"
    and "INT_MIN \<le> req_width" "INT_MIN \<le> req_height"
    and "max 0 x_off + req_width \<le> INT_MAX" "max 0 y_off + req_height \<le> INT_MAX"
  shows "clamp_region img_width img_height x_off y_off req_width req_height
       = (if max 0 x_off \<ge> img_width \<or> max 0 y_off \<ge> img_height
          then rb_raise rb_eArgError ''offset outside image bounds'' []
          else if min req_width (img_width - max 0 x_off) \<le> 0
                  \<or> min req_height (img_height - max 0 y_off) \<le> 0
          then rb_raise rb_eArgError ''invalid region size'' []
          else Inr (max 0 x_off, max 0 y_off,
                    min req_width (img_width - max 0 x_off),
                    min req_height (img_height - max 0 y_off)))"
proof -
  have m: "(if x_off < 0 then 0 else x_off) = max 0 x_off"
    "(if y_off < 0 then 0 else y_off) = max 0 y_off"
    by simp_all
  show ?thesis
  proof (cases "max 0 x_off \<ge> img_width \<or> max 0 y_off \<ge> img_height")
    case True
    then show ?thesis by (simp add: clamp_region_def m)
  next
    case False
    have "wrap_int (max 0 x_off + req_width) = max 0 x_off + req_width"
      using assms by (intro wrap_int_id) (simp_all add: INT_MIN_def)
    moreover have "wrap_int (max 0 y_off + req_height) = max 0 y_off + req_height"
      using assms by (intro wrap_int_id) (simp_all add: INT_MIN_def)
    moreover have "wrap_int (img_width - max 0 x_off) = img_width - max 0 x_off"
      using assms False by (intro wrap_int_id) (simp_all add: INT_MIN_def)
    moreover have "wrap_int (img_height - max 0 y_off) = img_height - max 0 y_off"
      using assms False by (intro wrap_int_id) (simp_all add: INT_MIN_def)
    ultimately show ?thesis
      using False by (simp add: clamp_region_def m Let_def min_def)
  qed
qed

text \<open>
  The first half of C5 holds without any condition on the sizes: an offset at or beyond
  the width or height of the image is refused.
\<close>

lemma get_image_offset_outside:
  assumes "get_image_opts opts (width block) (height block) = Inr (x, y, rw, rh, u)"
    and "max 0 x \<ge> width block \<or> max 0 y \<ge> height block"
  shows "get_image_result block opts
           = Inl (Raised rb_eArgError ''offset outside image bounds'' [])"
proof -
  have "clamp_region (width block) (height block) x y rw rh
          = Inl (Raised rb_eArgError ''offset outside image bounds'' [])"
    using assms(2) by (auto simp: clamp_region_def rb_raise_def max_def split: if_splits)
  then show ?thesis
    using assms(1) by (simp add: get_image_result_def and_then_def)
qed

text \<open>
  The second half holds while the sums stay in range: the \<^verbatim>\<open>:width\<close> and
  \<^verbatim>\<open>:height\<close> of a result are the requested sizes cut down to the image.
\<close>

lemma get_image_reports_clamped_size:
  assumes o: "get_image_opts opts (width block) (height block) = Inr (x, y, rw, rh, u)"
    and b: "0 \<le> width block" "width block \<le> INT_MAX" "0 \<le> height block"
      "height block \<le> INT_MAX"
    and r: "INT_MIN \<le> rw" "INT_MIN \<le> rh"
    and n: "max 0 x + rw \<le> INT_MAX" "max 0 y + rh \<le> INT_MAX"
    and ok: "get_image_result block opts = Inr res"
  shows "rb_hash_aref res (RSymbol ''width'') = RInteger (min rw (width block - max 0 x))
       \<and> rb_hash_aref res (RSymbol ''height'') = RInteger (min rh (height block - max 0 y))"
proof -
  note c = clamp_region_no_overflow [OF b r n]
  show ?thesis
    using ok o
    by (auto simp: get_image_result_def and_then_def c rb_raise_def Let_def
        rb_hash_new_def rb_hash_aset_def rb_hash_aref_def ID2SYM_def rb_intern_def INT2NUM_def
        split: if_splits sum.splits)
qed

subsection \<open>Negative offsets\<close>

lemma clamp_region_negative:
  "x_off < 0 \<Longrightarrow> clamp_region iw ih x_off y_off rw rh = clamp_region iw ih 0 y_off rw rh"
  "y_off < 0 \<Longrightarrow> clamp_region iw ih x_off y_off rw rh = clamp_region iw ih x_off 0 rw rh"
  by (simp_all add: clamp_region_def)

lemma opt_int_update:
  "opt_int (RHash (AList.update (RSymbol k) v kvs)) key d
     = (if key = k then (if NIL_P v then Inr d else NUM2INT v) else opt_int (RHash kvs) key d)"
  by (simp add: opt_int_def rb_hash_aref_def ID2SYM_def rb_intern_def update_conv' Let_def)

lemma aref_update:
  "rb_hash_aref (RHash (AList.update (RSymbol k) v kvs)) (RSymbol key)
     = (if key = k then v else rb_hash_aref (RHash kvs) (RSymbol key))"
  by (simp add: rb_hash_aref_def update_conv')

lemma opt_int_negative:
  assumes "rb_hash_aref (RHash kvs) (RSymbol key) = RInteger v" "INT_MIN \<le> v" "v < 0"
  shows "opt_int (RHash kvs) key d = Inr v"
  using assms
  by (simp add: opt_int_def ID2SYM_def rb_intern_def NIL_P_def NUM2INT_def INT_MAX_def)

lemma and_then_Inr: "and_then (Inr x) f = f x"
  by (simp add: and_then_def)

lemma and_then_assoc: "and_then (and_then m f) g = and_then m (\<lambda>x. and_then (f x) g)"
  by (simp add: and_then_def split: sum.split)

lemma get_image_opts_zero_x:
  assumes "opt_int (RHash kvs) ''x'' 0 = Inr v"
  shows "get_image_opts (RHash kvs) iw ih
           = and_then (opt_int (RHash kvs) ''y'' 0) (\<lambda>y_off.
             and_then (opt_int (RHash kvs) ''width'' iw) (\<lambda>req_width.
             and_then (opt_int (RHash kvs) ''height'' ih) (\<lambda>req_height.
             Inr (v, y_off, req_width, req_height,
                  if RTEST (rb_hash_aref (RHash kvs) (RSymbol ''unpack'')) then 1 else 0))))"
    and "get_image_opts (RHash (AList.update (RSymbol ''x'') (RInteger 0) kvs)) iw ih
           = and_then (opt_int (RHash kvs) ''y'' 0) (\<lambda>y_off.
             and_then (opt_int (RHash kvs) ''width'' iw) (\<lambda>req_width.
             and_then (opt_int (RHash kvs) ''height'' ih) (\<lambda>req_height.
             Inr (0, y_off, req_width, req_height,
                  if RTEST (rb_hash_aref (RHash kvs) (RSymbol ''unpack'')) then 1 else 0))))"
  using assms
  by (simp_all add: get_image_opts_def NIL_P_def and_then_Inr opt_int_update aref_update
      ID2SYM_def rb_intern_def NUM2INT_def INT_MIN_def INT_MAX_def)

lemma get_image_opts_zero_y:
  assumes "opt_int (RHash kvs) ''y'' 0 = Inr v"
  shows "get_image_opts (RHash kvs) iw ih
           = and_then (opt_int (RHash kvs) ''x'' 0) (\<lambda>x_off.
             and_then (opt_int (RHash kvs) ''width'' iw) (\<lambda>req_width.
             and_then (opt_int (RHash kvs) ''height'' ih) (\<lambda>req_height.
             Inr (x_off, v, req_width, req_height,
                  if RTEST (rb_hash_aref (RHash kvs) (RSymbol ''unpack'')) then 1 else 0))))"
    and "get_image_opts (RHash (AList.update (RSymbol ''y'') (RInteger 0) kvs)) iw ih
           = and_then (opt_int (RHash kvs) ''x'' 0) (\<lambda>x_off.
             and_then (opt_int (RHash kvs) ''width'' iw) (\<lambda>req_width.
             and_then (opt_int (RHash kvs) ''height'' ih) (\<lambda>req_height.
             Inr (x_off, 0, req_width, req_height,
                  if RTEST (rb_hash_aref (RHash kvs) (RSymbol ''unpack'')) then 1 else 0))))"
  using assms
  by (simp_all add: get_image_opts_def NIL_P_def and_then_Inr opt_int_update aref_update
      ID2SYM_def rb_intern_def NUM2INT_def INT_MIN_def INT_MAX_def)

lemma get_image_result_negative_offset:
  assumes "key = ''x'' \<or> key = ''y''"
    and "rb_hash_aref (RHash kvs) (RSymbol key) = RInteger v" and "INT_MIN \<le> v" and "v < 0"
  shows "get_image_result block (RHash kvs)
       = get_image_result block (RHash (AList.update (RSymbol key) (RInteger 0) kvs))"
proof -
  have n: "opt_int (RHash kvs) key 0 = Inr v"
    by (rule opt_int_negative [OF assms(2-4)])
  from assms(1) show ?thesis
  proof
    assume k: "key = ''x''"
    show ?thesis
      unfolding k get_image_result_def Let_def get_image_opts_zero_x [OF n [unfolded k]]
      by (simp add: and_then_assoc and_then_Inr clamp_region_negative(1) [OF assms(4)])
  next
    assume k: "key = ''y''"
    show ?thesis
      unfolding k get_image_result_def Let_def get_image_opts_zero_y [OF n [unfolded k]]
      by (simp add: and_then_assoc and_then_Inr clamp_region_negative(2) [OF assms(4)])
  qed
qed

text \<open>
  C10. A read whose \<^verbatim>\<open>x:\<close> (or \<^verbatim>\<open>y:\<close>) option is a negative \<^verbatim>\<open>int\<close> behaves in
  every respect (result or exception, and final state) as the same read with that
  option set to 0: the offset is clamped to the image origin, silently, and whatever
  error the call ends with is one the call from the origin ends with as well.
\<close>

theorem get_image_negative_offset_clamped:
  assumes "key = ''x'' \<or> key = ''y''"
    and "rb_hash_aref (RHash kvs) (RSymbol key) = RInteger v" and "INT_MIN \<le> v" and "v < 0"
  shows "interp_photo_get_image photo_path (RHash kvs) s
       = interp_photo_get_image photo_path
           (rb_hash_aset (RHash kvs) (RSymbol key) (RInteger 0)) s"
  unfolding interp_photo_get_image_def rb_hash_aset_def VALUE.case
    get_image_result_negative_offset [OF assms, symmetric]
  by (rule refl)

lemma get_image_from_origin:
  "fst (interp_photo_get_image (RString ''i00002'')
          (RHash [(RSymbol ''x'', RInteger 0), (RSymbol ''width'', RInteger 1)]) photo_interp)
     = Inr (RHash [(RSymbol ''width'', RInteger 1), (RSymbol ''height'', RInteger 2),
                   (RSymbol ''data'', RString ''rgbastuv'')])"
  "fst (interp_photo_get_image (RString ''i00002'')
          (RHash [(RSymbol ''y'', RInteger 0), (RSymbol ''height'', RInteger 1)]) photo_interp)
     = Inr (RHash [(RSymbol ''width'', RInteger 2), (RSymbol ''height'', RInteger 1),
                   (RSymbol ''data'', RString ''rgbaRGBA'')])"
  by (simp_all add: interp_photo_get_image_def then_do_lift StringValue_def StringValueCStr_def
      then_do_def native_def Tk_FindPhoto_def photo_interp_def called_def Tk_PhotoGetImage_def
      small_photo_def lift_def get_image_result_def and_then_def
      get_image_opts_def NIL_P_def opt_int_def rb_hash_aref_def ID2SYM_def
      rb_intern_def NUM2INT_def INT_MIN_def INT_MAX_def RTEST_def
      clamp_region_def wrap_int_def rb_raise_def
      copy_rows.simps copy_row.simps read_pixel_def peek_def
      rb_hash_new_def rb_hash_aset_def INT2NUM_def)

theorem get_image_negative_offset_clamped_witness:
  "fst (interp_photo_get_image (RString ''i00002'')
          (RHash [(RSymbol ''x'', RInteger (- 3)), (RSymbol ''width'', RInteger 1)]) photo_interp)
     = Inr (RHash [(RSymbol ''width'', RInteger 1), (RSymbol ''height'', RInteger 2),
                   (RSymbol ''data'', RString ''rgbastuv'')])
   \<and> fst (interp_photo_get_image (RString ''i00002'')
          (RHash [(RSymbol ''y'', RInteger (- 1)), (RSymbol ''height'', RInteger 1)]) photo_interp)
     = Inr (RHash [(RSymbol ''width'', RInteger 2), (RSymbol ''height'', RInteger 1),
                   (RSymbol ''data'', RString ''rgbaRGBA'')])"
proof -
  have k: "''x'' = ''x'' \<or> ''x'' = ''y''" "''y'' = ''x'' \<or> ''y'' = ''y''"
    by simp_all
  have a: "rb_hash_aref (RHash [(RSymbol ''x'', RInteger (- 3)), (RSymbol ''width'', RInteger 1)])
             (RSymbol ''x'') = RInteger (- 3)"
    "rb_hash_aref (RHash [(RSymbol ''y'', RInteger (- 1)), (RSymbol ''height'', RInteger 1)])
             (RSymbol ''y'') = RInteger (- 1)"
    by (simp_all add: rb_hash_aref_def)
  have r: "INT_MIN \<le> - 3" "(- 3::int) < 0" "INT_MIN \<le> - 1" "(- 1::int) < 0"
    by (simp_all add: INT_MIN_def)
  have u: "rb_hash_aset (RHash [(RSymbol ''x'', RInteger (- 3)), (RSymbol ''width'', RInteger 1)])
             (RSymbol ''x'') (RInteger 0)
           = RHash [(RSymbol ''x'', RInteger 0), (RSymbol ''width'', RInteger 1)]"
    "rb_hash_aset (RHash [(RSymbol ''y'', RInteger (- 1)), (RSymbol ''height'', RInteger 1)])
             (RSymbol ''y'') (RInteger 0)
           = RHash [(RSymbol ''y'', RInteger 0), (RSymbol ''height'', RInteger 1)]"
    by (simp_all add: rb_hash_aset_def)
  show ?thesis
    using get_image_negative_offset_clamped
        [OF k(1) a(1) r(1,2), of "RString ''i00002''" photo_interp]
      get_image_negative_offset_clamped
        [OF k(2) a(2) r(3,4), of "RString ''i00002''" photo_interp]
    by (simp add: u get_image_from_origin)
qed

section \<open>Properties of tkphoto.c: write, then read\<close>

subsection \<open>Lists of pixels\<close>

lemma those_Some_nth:
  "those xs = Some ys \<Longrightarrow> length ys = length xs \<and> (\<forall>i<length xs. xs ! i = Some (ys ! i))"
proof (induction xs arbitrary: ys)
  case Nil
  then show ?case by simp
next
  case (Cons x xs)
  then obtain z zs where x: "x = Some z" and zs: "those xs = Some zs" and ys: "ys = z # zs"
    by (auto split: option.splits)
  from Cons.IH [OF zs] show ?case
    by (auto simp: x ys nth_Cons split: nat.split)
qed

lemma those_all_Some:
  "None \<notin> set xs \<Longrightarrow> \<exists>ys. those xs = Some ys"
proof (induction xs)
  case Nil
  then show ?case by simp
next
  case (Cons x xs)
  then obtain z ys where "x = Some z" "those xs = Some ys"
    by (cases x) auto
  then show ?case by simp
qed

lemma concat_pixels_upt_Suc:
  "concat (map f [0..<Suc n]) = f 0 @ concat (map (\<lambda>i. f (Suc i)) [0..<n])"
proof -
  have "[0..<Suc n] = 0 # map Suc [0..<n]"
    by (simp add: upt_conv_Cons map_Suc_upt del: upt_Suc)
  then show ?thesis by (simp add: comp_def del: upt_Suc)
qed

lemma rgba_pixels_id:
  "length d = 4 * n \<Longrightarrow>
   concat (map (\<lambda>i. [d ! (4 * i), d ! (4 * i + 1), d ! (4 * i + 2), d ! (4 * i + 3)]) [0..<n]) = d"
proof (induction n arbitrary: d)
  case 0
  then show ?case by simp
next
  case (Suc n)
  then obtain r g b a rest where d: "d = r # g # b # a # rest"
    by (cases d; cases "tl d"; cases "tl (tl d)"; cases "tl (tl (tl d))") auto
  with Suc.prems have "length rest = 4 * n" by simp
  from Suc.IH [OF this] show ?case
    unfolding concat_pixels_upt_Suc by (simp add: d add.commute)
qed

lemma argb_pixels:
  "length d = 4 * n \<Longrightarrow>
   concat (map (\<lambda>i. [d ! (4 * i + 2), d ! (4 * i + 1), d ! (4 * i), d ! (4 * i + 3)]) [0..<n])
     = argb_to_rgba d"
proof (induction n arbitrary: d)
  case 0
  then show ?case by simp
next
  case (Suc n)
  then obtain b g r a rest where d: "d = b # g # r # a # rest"
    by (cases d; cases "tl d"; cases "tl (tl d)"; cases "tl (tl (tl d))") auto
  with Suc.prems have "length rest = 4 * n" by simp
  from Suc.IH [OF this] show ?case
    unfolding concat_pixels_upt_Suc by (simp add: d add.commute)
qed

lemma concat_rows_flat:
  "concat (map (\<lambda>j. concat (map (\<lambda>i. f (j * w + i)) [0..<w])) [0..<h])
     = concat (map f [0..<h * w])"
proof (induction h)
  case 0
  then show ?case by simp
next
  case (Suc h)
  have "[0..<h * w + w] = [0..<h * w] @ [h * w..<h * w + w]"
    by (rule upt_add_eq_append) simp
  then have a: "[0..<Suc h * w] = [0..<h * w] @ [h * w..<h * w + w]"
    by (simp only: mult_Suc add.commute)
  have "[h * w..<h * w + w] = map (\<lambda>i. h * w + i) [0..<w]"
    by (rule nth_equalityI) simp_all
  then have b: "map f [h * w..<h * w + w] = map (\<lambda>i. f (h * w + i)) [0..<w]"
    by (simp only: map_map comp_def)
  show ?case
    unfolding a by (simp add: Suc b)
qed


lemma pixel_index_bound:
  fixes R C W H :: int
  assumes "0 \<le> R" "R < H" "0 \<le> C" "C < W" "k < 4"
  shows "0 \<le> (R * W + C) * 4 + int k" "(R * W + C) * 4 + int k < W * H * 4"
proof -
  have "0 \<le> R * W" using assms by simp
  then show "0 \<le> (R * W + C) * 4 + int k" using assms by simp
  have "(R + 1) * W \<le> H * W"
    using assms by (intro mult_right_mono) auto
  moreover have "R * W + C < (R + 1) * W"
    using assms by (simp add: algebra_simps)
  ultimately have "R * W + C < W * H" by (simp add: mult.commute)
  then show "(R * W + C) * 4 + int k < W * H * 4" using assms by simp
qed

lemma pixel_index_split:
  fixes R C W :: int
  assumes "0 \<le> R" "0 \<le> C" "C < W" "k < 4"
  shows "int (nat ((R * W + C) * 4 + int k) div 4) mod W = C"
    "int (nat ((R * W + C) * 4 + int k) div 4) div W = R"
    "nat ((R * W + C) * 4 + int k) mod 4 = k"
proof -
  have q: "0 \<le> R * W + C" using assms by simp
  have n: "nat ((R * W + C) * 4 + int k) = nat (R * W + C) * 4 + k"
    using q by (simp add: nat_add_distrib nat_mult_distrib)
  have d: "int (nat ((R * W + C) * 4 + int k) div 4) = R * W + C"
    unfolding n using assms q by simp
  show "int (nat ((R * W + C) * 4 + int k) div 4) mod W = C"
    unfolding d using assms by simp
  show "int (nat ((R * W + C) * 4 + int k) div 4) div W = R"
    unfolding d using assms by simp
  show "nat ((R * W + C) * 4 + int k) mod 4 = k"
    unfolding n using assms by simp
qed


lemma dest_byte_defined:
  assumes wf: "int (length (pix32 m)) = pm_width m * pm_height m * 4"
    and W: "0 < W"
    and src: "\<forall>i j k. 0 \<le> i \<and> i < w \<and> 0 \<le> j \<and> j < h \<and> k < 4 \<longrightarrow> src i j k = Some (v i j k)"
  shows "dest_byte m x y w h src W idx \<noteq> None"
proof -
  define col where "col = int (idx div 4) mod W"
  define row where "row = int (idx div 4) div W"
  have c0: "0 \<le> col" and r0: "0 \<le> row"
    using W by (simp_all add: col_def row_def pos_imp_zdiv_nonneg_iff)
  have k: "idx mod 4 < 4" by simp
  have d: "dest_byte m x y w h src W idx
         = (if x \<le> col \<and> col < x + w \<and> y \<le> row \<and> row < y + h
            then src (col - x) (row - y) (idx mod 4)
            else if col < pm_width m \<and> row < pm_height m
            then peek (pix32 m) ((row * pm_width m + col) * 4 + int (idx mod 4))
            else Some (CHR 0x00))"
    by (simp only: dest_byte_def Let_def col_def row_def)
  show ?thesis
  proof (cases "x \<le> col \<and> col < x + w \<and> y \<le> row \<and> row < y + h")
    case True
    then have "src (col - x) (row - y) (idx mod 4) = Some (v (col - x) (row - y) (idx mod 4))"
      using src k by simp
    then show ?thesis
      unfolding d by (simp only: True if_True simp_thms) simp
  next
    case False
    show ?thesis
    proof (cases "col < pm_width m \<and> row < pm_height m")
      case True
      have "0 \<le> (row * pm_width m + col) * 4 + int (idx mod 4)"
        "(row * pm_width m + col) * 4 + int (idx mod 4) < pm_width m * pm_height m * 4"
        using pixel_index_bound [OF r0 _ c0 _ k, of "pm_height m" "pm_width m"] True
        by simp_all
      then have "peek (pix32 m) ((row * pm_width m + col) * 4 + int (idx mod 4)) \<noteq> None"
        using wf by (simp add: peek_def)
      then show ?thesis
        unfolding d by (simp only: False True if_True if_False simp_thms)
    next
      case nold: False
      show ?thesis
        unfolding d by (simp only: False nold if_False simp_thms) simp
    qed
  qed
qed

lemma dest_byte_region:
  assumes "0 \<le> x" "0 \<le> y" "0 \<le> i" "i < w" "0 \<le> j" "j < h" "k < 4" "x + w \<le> W"
  shows "dest_byte m x y w h src W (nat (((y + j) * W + (x + i)) * 4 + int k)) = src i j k"
proof -
  have a: "0 \<le> y + j" "0 \<le> x + i" "x + i < W"
    using assms by simp_all
  show ?thesis
    unfolding dest_byte_def Let_def pixel_index_split [OF a assms(7)]
    using assms by simp
qed

subsection \<open>What Tk stores and what the read copies\<close>

lemma store_region_ok:
  assumes wf: "0 \<le> pm_width m" "0 \<le> pm_height m"
      "int (length (pix32 m)) = pm_width m * pm_height m * 4"
    and pos: "0 \<le> x" "0 \<le> y" "0 < w" "0 < h"
    and noclip: "userWidth m = 0 \<or> x + w \<le> userWidth m"
      "userHeight m = 0 \<or> y + h \<le> userHeight m"
    and W: "W = max (x + w) (pm_width m)" and H: "H = max (y + h) (pm_height m)"
    and lim: "W * H * 4 \<le> limit"
    and src: "\<forall>i j k. 0 \<le> i \<and> i < w \<and> 0 \<le> j \<and> j < h \<and> k < 4 \<longrightarrow> src i j k = Some (v i j k)"
  shows "\<exists>bytes. store_region m x y w h src limit
                   = Some (TCL_OK, m\<lparr>pm_width := W, pm_height := H, pix32 := bytes\<rparr>)
            \<and> int (length bytes) = W * H * 4
            \<and> (\<forall>i j k. 0 \<le> i \<and> i < w \<and> 0 \<le> j \<and> j < h \<and> k < 4 \<longrightarrow>
                  bytes ! nat (((y + j) * W + (x + i)) * 4 + int k) = v i j k)"
proof -
  define f where "f = dest_byte m x y w h src W"
  define n where "n = nat (W * H * 4)"
  have Wpos: "0 < W" and Hpos: "0 < H" and xw: "x + w \<le> W" and yh: "y + h \<le> H"
    using pos W H by simp_all
  have "f idx \<noteq> None" for idx
    unfolding f_def by (rule dest_byte_defined [OF wf(3) Wpos src])
  then have "\<forall>z \<in> set (map f [0..<n]). z \<noteq> None"
    by simp
  then have "None \<notin> set (map f [0..<n])"
    by blast
  then obtain bytes where b: "those (map f [0..<n]) = Some bytes"
    using those_all_Some by blast
  from those_Some_nth [OF b]
  have len: "length bytes = n" and nth: "\<And>idx. idx < n \<Longrightarrow> f idx = Some (bytes ! idx)"
    by simp_all
  have WH: "0 \<le> W * H * 4" using Wpos Hpos by simp
  have clip: "(if userWidth m \<noteq> 0 \<and> x + w > userWidth m then userWidth m - x else w) = w"
    "(if userHeight m \<noteq> 0 \<and> y + h > userHeight m then userHeight m - y else h) = h"
    using noclip by auto
  have neg: "\<not> (x < 0 \<or> y < 0)" "\<not> (w \<le> 0 \<or> h \<le> 0)"
    using pos by simp_all
  have al: "\<not> ((W \<noteq> pm_width m \<or> H \<noteq> pm_height m) \<and> W * H * 4 > limit)"
    using lim by simp
  have b': "those (map (dest_byte m x y w h src W) [0..<nat (W * H * 4)]) = Some bytes"
    using b by (simp only: f_def n_def)
  have sr: "store_region m x y w h src limit
              = Some (TCL_OK, m\<lparr>pm_width := W, pm_height := H, pix32 := bytes\<rparr>)"
    unfolding store_region_def clip Let_def W [symmetric] H [symmetric]
    by (simp only: neg al if_False b' option.case)
  have px: "bytes ! nat (((y + j) * W + (x + i)) * 4 + int k) = v i j k"
    if "0 \<le> i" "i < w" "0 \<le> j" "j < h" "k < 4" for i j k
  proof -
    have r: "0 \<le> y + j" "y + j < H" "0 \<le> x + i" "x + i < W"
      using that pos xw yh by simp_all
    have "nat (((y + j) * W + (x + i)) * 4 + int k) < n"
      unfolding n_def using pixel_index_bound [OF r that(5)] by simp
    from nth [OF this]
    have "f (nat (((y + j) * W + (x + i)) * 4 + int k))
            = Some (bytes ! nat (((y + j) * W + (x + i)) * 4 + int k))" .
    moreover have "f (nat (((y + j) * W + (x + i)) * 4 + int k)) = src i j k"
      unfolding f_def by (rule dest_byte_region [OF pos(1,2) that xw])
    moreover have "src i j k = Some (v i j k)"
      using src that by simp
    ultimately show ?thesis by simp
  qed
  show ?thesis
    using sr len px WH by (intro exI [of _ bytes]) (simp add: n_def)
qed


lemma copy_row_spec:
  assumes "0 \<le> x"
    and "\<forall>i. x \<le> i \<and> i < aw \<longrightarrow>
           read_pixel block (src + (i - x) * pixelSize block) = Some (g (nat i))"
  shows "copy_row emit block src x aw dst
           = Inr (dst @ concat (map (\<lambda>i. map emit (g i)) [nat x..<nat aw]))"
  using assms
proof (induction emit block src x aw dst rule: copy_row.induct)
  case (1 emit block src x aw dst)
  show ?case
  proof (cases "x < aw")
    case True
    have r: "read_pixel block src = Some (g (nat x))"
      using "1.prems"(2) True by (auto dest: spec [of _ x])
    have n: "\<forall>i. x + 1 \<le> i \<and> i < aw \<longrightarrow>
           read_pixel block (src + pixelSize block + (i - (x + 1)) * pixelSize block)
             = Some (g (nat i))"
    proof (intro allI impI)
      fix i assume i: "x + 1 \<le> i \<and> i < aw"
      have e: "src + pixelSize block + (i - (x + 1)) * pixelSize block
              = src + (i - x) * pixelSize block"
        by (simp add: algebra_simps)
      have "read_pixel block (src + (i - x) * pixelSize block) = Some (g (nat i))"
        using "1.prems"(2) i by simp
      then show "read_pixel block (src + pixelSize block + (i - (x + 1)) * pixelSize block)
             = Some (g (nat i))"
        by (simp only: e)
    qed
    have ih: "copy_row emit block (src + pixelSize block) (x + 1) aw (dst @ map emit (g (nat x)))
        = Inr ((dst @ map emit (g (nat x)))
                 @ concat (map (\<lambda>i. map emit (g i)) [nat (x + 1)..<nat aw]))"
      using "1.prems"(1) by (intro "1.IH" [OF True r]) (simp_all add: n)
    have u: "[nat x..<nat aw] = nat x # [nat (x + 1)..<nat aw]"
      using True "1.prems"(1) by (simp add: upt_conv_Cons nat_add_distrib)
    show ?thesis
      by (subst copy_row.simps) (simp add: True r ih u)
  next
    case False
    then have "[nat x..<nat aw] = []" by simp
    then show ?thesis
      using False by (subst copy_row.simps) simp
  qed
qed

lemma copy_rows_spec:
  assumes "0 \<le> y"
    and "\<forall>j d. y \<le> j \<and> j < ah \<longrightarrow>
           copy_row emit block
             (wrap_int (wrap_int (y_off + j) * pitch block) + wrap_int (x_off * pixelSize block))
             0 aw d
           = Inr (d @ row (nat j))"
  shows "copy_rows emit block x_off y_off y aw ah dst
           = Inr (dst @ concat (map row [nat y..<nat ah]))"
  using assms
proof (induction emit block x_off y_off y aw ah dst rule: copy_rows.induct)
  case (1 emit block x_off y_off y aw ah dst)
  show ?case
  proof (cases "y < ah")
    case True
    define src where
      "src = wrap_int (wrap_int (y_off + y) * pitch block) + wrap_int (x_off * pixelSize block)"
    have r: "copy_row emit block src 0 aw dst = Inr (dst @ row (nat y))"
      using "1.prems"(2) True unfolding src_def by simp
    have ih: "copy_rows emit block x_off y_off (y + 1) aw ah (dst @ row (nat y))
        = Inr ((dst @ row (nat y)) @ concat (map row [nat (y + 1)..<nat ah]))"
      using "1.prems" by (intro "1.IH" [OF True src_def r]) simp_all
    have u: "[nat y..<nat ah] = nat y # [nat (y + 1)..<nat ah]"
      using True "1.prems"(1) by (simp add: upt_conv_Cons nat_add_distrib)
    show ?thesis
      by (subst copy_rows.simps) (simp add: True r [unfolded src_def] ih u Let_def)
  next
    case False
    then have "[nat y..<nat ah] = []" by simp
    then show ?thesis
      using False by (subst copy_rows.simps) simp
  qed
qed


lemma dims_le_area:
  fixes W H :: int
  assumes "0 < W" "0 < H"
  shows "W \<le> W * H * 4" "H \<le> W * H * 4" "W * 4 \<le> W * H * 4"
proof -
  have a: "0 < W * H" using assms by simp
  have "W * 1 \<le> W * H" using assms by (intro mult_left_mono) simp_all
  then have w: "W \<le> W * H" by (simp only: mult_1_right)
  have "1 * H \<le> W * H" using assms by (intro mult_right_mono) simp_all
  then have h: "H \<le> W * H" by (simp only: mult_1)
  show "W \<le> W * H * 4" using a w by linarith
  show "H \<le> W * H * 4" using a h by linarith
  show "W * 4 \<le> W * H * 4" using w by linarith
qed

lemma read_pixel_rgba:
  assumes "0 \<le> src" "src + 3 < int (length P)"
  shows "read_pixel \<lparr>pixelPtr = P, width = W, height = H, pitch = W * 4, pixelSize = 4,
                       offset = [0, 1, 2, 3]\<rparr> src
         = Some (map (\<lambda>k. P ! nat (src + int k)) [0, 1, 2, 3])"
  using assms by (simp add: read_pixel_def peek_def)

lemma read_image_region:
  fixes W H :: int
  assumes len: "int (length P) = W * H * 4" and small: "W * H * 4 \<le> INT_MAX"
    and pos: "0 \<le> x" "0 \<le> y" "0 < w" "0 < h"
    and fit: "x + w \<le> W" "y + h \<le> H"
  shows "copy_rows (\<lambda>v. v)
           \<lparr>pixelPtr = P, width = W, height = H, pitch = W * 4, pixelSize = 4,
            offset = [0, 1, 2, 3]\<rparr> x y 0 w h []
         = Inr (concat (map (\<lambda>j. concat (map (\<lambda>i.
                  map (\<lambda>k. P ! nat (((y + int j) * W + (x + int i)) * 4 + int k)) [0, 1, 2, 3])
                  [0..<nat w])) [0..<nat h]))"
proof -
  define block where
    "block = \<lparr>pixelPtr = P, width = W, height = H, pitch = W * 4, pixelSize = 4,
              offset = [0, 1, 2, 3]\<rparr>"
  define pix where
    "pix = (\<lambda>j i. map (\<lambda>k. P ! nat (((y + int j) * W + (x + int i)) * 4 + int k))
                      [0, 1, 2, 3])"
  define row where "row = (\<lambda>j. concat (map (pix j) [0..<nat w]))"
  have Wpos: "0 < W" and Hpos: "0 < H" using pos fit by simp_all
  note W4 = dims_le_area(3) [OF Wpos Hpos]
  have rows: "copy_row (\<lambda>v. v) block
             (wrap_int (wrap_int (y + j) * pitch block) + wrap_int (x * pixelSize block))
             0 w d
           = Inr (d @ row (nat j))"
    if j: "0 \<le> j" "j < h" for j d
  proof -
    have yj: "0 \<le> y + j" "y + j < H" using j pos fit by simp_all
    have b0: "(y + j) * W * 4 \<le> W * H * 4"
      using pixel_index_bound(2) [OF yj order_refl Wpos, where k = 0] by simp
    have "y + j \<le> W * H * 4"
      using yj dims_le_area(2) [OF Wpos Hpos] by linarith
    then have w1: "wrap_int (y + j) = y + j"
      using yj small by (intro wrap_int_id) (simp_all add: INT_MIN_def)
    have "0 \<le> (y + j) * W" using yj Wpos by simp
    then have w2: "wrap_int ((y + j) * (W * 4)) = (y + j) * (W * 4)"
      using b0 small by (intro wrap_int_id) (simp_all add: INT_MIN_def algebra_simps)
    have "x * 4 \<le> W * 4" using fit pos by simp
    then have w3: "wrap_int (x * 4) = x * 4"
      using pos W4 small by (intro wrap_int_id) (simp_all add: INT_MIN_def)
    have bl: "pitch block = W * 4" "pixelSize block = 4"
      by (simp_all add: block_def)
    have base: "wrap_int (wrap_int (y + j) * pitch block) + wrap_int (x * pixelSize block)
             = ((y + j) * W + x) * 4"
      unfolding bl w1 w2 w3 by (simp add: algebra_simps)
    have px: "\<forall>i. 0 \<le> i \<and> i < w \<longrightarrow>
           read_pixel block (((y + j) * W + x) * 4 + (i - 0) * pixelSize block)
             = Some (pix (nat j) (nat i))"
    proof (intro allI impI)
      fix i assume i: "0 \<le> i \<and> i < w"
      then have xi: "0 \<le> x + i" "x + i < W" using pos fit by simp_all
      have lo: "0 \<le> ((y + j) * W + (x + i)) * 4"
        using pixel_index_bound(1) [OF yj xi, where k = 0] by simp
      have hi: "((y + j) * W + (x + i)) * 4 + 3 < int (length P)"
        using pixel_index_bound(2) [OF yj xi, where k = 3] len by simp
      have e: "((y + j) * W + x) * 4 + (i - 0) * pixelSize block = ((y + j) * W + (x + i)) * 4"
        by (simp add: block_def algebra_simps)
      show "read_pixel block (((y + j) * W + x) * 4 + (i - 0) * pixelSize block)
             = Some (pix (nat j) (nat i))"
        unfolding e using read_pixel_rgba [OF lo hi, of W H] i j
        by (simp add: block_def pix_def)
    qed
    have "copy_row (\<lambda>v. v) block (((y + j) * W + x) * 4) 0 w d
          = Inr (d @ concat (map (\<lambda>i. map (\<lambda>v. v) (pix (nat j) i)) [nat 0..<nat w]))"
      by (rule copy_row_spec [OF _ px]) simp
    then show ?thesis
      unfolding base by (simp add: row_def)
  qed
  have "copy_rows (\<lambda>v. v) block x y 0 w h [] = Inr ([] @ concat (map row [nat 0..<nat h]))"
    by (rule copy_rows_spec) (use rows in simp_all)
  then show ?thesis
    by (simp add: block_def row_def pix_def)
qed


lemma region_opts_parse:
  assumes "INT_MIN \<le> x" "x \<le> INT_MAX" "INT_MIN \<le> y" "y \<le> INT_MAX"
    and "INT_MIN \<le> w" "w \<le> INT_MAX" "INT_MIN \<le> h" "h \<le> INT_MAX"
  shows "get_image_opts (region_opts x y w h) iw ih = Inr (x, y, w, h, 0)"
  using assms
  by (simp add: get_image_opts_def region_opts_def NIL_P_def opt_int_def rb_hash_aref_def
      ID2SYM_def rb_intern_def NUM2INT_def and_then_def RTEST_def)

lemma get_image_read:
  fixes W H :: int
  assumes path: "CHR 0x00 \<notin> set path"
    and img: "photos s path = Some m" "pm_width m = W" "pm_height m = H" "pix32 m = P"
    and len: "int (length P) = W * H * 4" and small: "W * H * 4 \<le> INT_MAX"
    and pos: "0 \<le> x" "0 \<le> y" "0 < w" "0 < h"
    and fit: "x + w \<le> W" "y + h \<le> H"
  shows "fst (interp_photo_get_image (RString path) (region_opts x y w h) s)
         = Inr (RHash [(RSymbol ''width'', RInteger w), (RSymbol ''height'', RInteger h),
                       (RSymbol ''data'', RString
                          (concat (map (\<lambda>j. concat (map (\<lambda>i.
                             map (\<lambda>k. P ! nat (((y + int j) * W + (x + int i)) * 4 + int k))
                               [0, 1, 2, 3])
                             [0..<nat w])) [0..<nat h])))])"
proof -
  have Wpos: "0 < W" and Hpos: "0 < H" using pos fit by simp_all
  have Wb: "W \<le> INT_MAX" and Hb: "H \<le> INT_MAX"
    using dims_le_area [OF Wpos Hpos] small by linarith+
  have o: "get_image_opts (region_opts x y w h) W H = Inr (x, y, w, h, 0)"
    using pos fit Wb Hb by (intro region_opts_parse) (simp_all add: INT_MIN_def)
  have xw: "wrap_int (x + w) = x + w" "wrap_int (y + h) = y + h"
    using pos fit Wb Hb by (simp_all add: wrap_int_id INT_MIN_def)
  have c: "clamp_region W H x y w h = Inr (x, y, w, h)"
    using pos fit by (simp add: clamp_region_def xw Let_def)
  note r = read_image_region [OF len small pos fit]
  show ?thesis
    using path img o c r
    by (simp add: interp_photo_get_image_def then_do_lift StringValue_def StringValueCStr_def
      then_do_def native_def Tk_FindPhoto_def called_def Tk_PhotoGetImage_def lift_def
      get_image_result_def and_then_def Let_def rb_hash_new_def rb_hash_aset_def ID2SYM_def
      rb_intern_def INT2NUM_def)
qed


lemma block_offsets_range:
  assumes "k < 4"
  shows "0 \<le> block_offsets a ! k" "block_offsets a ! k < 4"
proof -
  from assms have "k = 0 \<or> k = 1 \<or> k = 2 \<or> k = 3" by arith
  then show "0 \<le> block_offsets a ! k" "block_offsets a ! k < 4"
    by (auto simp: block_offsets_def)
qed

lemma block_byte_data:
  fixes w h :: int
  assumes len: "int (length data) = w * h * 4" and small: "w * 4 \<le> INT_MAX"
    and ij: "0 \<le> i" "i < w" "0 \<le> j" "j < h" and k: "k < 4"
  shows "block_byte \<lparr>pixelPtr = data, width = w, height = h, pitch = wrap_int (w * 4),
                      pixelSize = 4, offset = block_offsets a\<rparr> (i mod w) (j mod h) k
         = Some (data ! nat ((j * w + i) * 4 + block_offsets a ! k))"
proof -
  define c where "c = nat (block_offsets a ! k)"
  have ok: "c < 4" "int c = block_offsets a ! k"
    using block_offsets_range [OF k, of a] by (simp_all add: c_def)
  have p: "wrap_int (w * 4) = w * 4"
    using small ij by (intro wrap_int_id) (simp_all add: INT_MIN_def)
  have m: "i mod w = i" "j mod h = j"
    using ij by simp_all
  have b: "0 \<le> (j * w + i) * 4 + int c" "(j * w + i) * 4 + int c < w * h * 4"
    using pixel_index_bound [OF ij(3,4) ij(1,2) ok(1)] by simp_all
  have e: "j * (w * 4) + i * 4 + block_offsets a ! k = (j * w + i) * 4 + int c"
    by (simp add: ok algebra_simps)
  show ?thesis
    unfolding block_byte_def m
    using b len by (simp add: p e peek_def ok)
qed


lemma put_block_effect:
  fixes W H :: int
  assumes path: "CHR 0x00 \<notin> set path" and img: "photos s path = Some m"
    and wf: "0 \<le> pm_width m" "0 \<le> pm_height m"
      "int (length (pix32 m)) = pm_width m * pm_height m * 4"
    and dims: "0 < w" "0 < h" and len: "int (length data) = w * h * 4"
    and opts: "put_block_opts opts = Inr (x, y, is_argb)" and pos: "0 \<le> x" "0 \<le> y"
    and noclip: "userWidth m = 0 \<or> x + w \<le> userWidth m"
      "userHeight m = 0 \<or> y + h \<le> userHeight m"
    and W: "W = max (x + w) (pm_width m)" and H: "H = max (y + h) (pm_height m)"
    and small: "W * H * 4 \<le> INT_MAX" and lim: "W * H * 4 \<le> alloc_limit s"
  shows "\<exists>s1 bytes.
           interp_photo_put_block (RString path) (RString data) (RInteger w) (RInteger h) opts s
             = (Inr Qnil, s1)
         \<and> photos s1 path = Some (m\<lparr>pm_width := W, pm_height := H, pix32 := bytes\<rparr>)
         \<and> int (length bytes) = W * H * 4
         \<and> (\<forall>i j k. 0 \<le> i \<and> i < w \<and> 0 \<le> j \<and> j < h \<and> k < 4 \<longrightarrow>
               bytes ! nat (((y + j) * W + (x + i)) * 4 + int k)
                 = data ! nat ((j * w + i) * 4 + block_offsets is_argb ! k))"
proof -
  define block where
    "block = \<lparr>pixelPtr = data, width = w, height = h, pitch = wrap_int (w * 4),
              pixelSize = 4, offset = block_offsets is_argb\<rparr>"
  define c where "c = Call_Tk_PhotoPutBlock path block x y w h"
  define s0 where "s0 = called (Call_Tk_FindPhoto path) s"
  have Wpos: "0 < W" and Hpos: "0 < H" and wW: "w \<le> W" and hH: "h \<le> H"
    using pos dims W H by simp_all
  have Wb: "W \<le> INT_MAX" "H \<le> INT_MAX" "W * 4 \<le> INT_MAX"
    using dims_le_area [OF Wpos Hpos] small by linarith+
  have wb: "w \<le> INT_MAX" "h \<le> INT_MAX" "w * 4 \<le> INT_MAX"
    using Wb wW hH by linarith+
  have "w * h \<le> W * H"
    using wW hH dims by (intro mult_mono) simp_all
  then have "w * h * 4 \<le> INT_MAX" using small by linarith
  then have "int (length data) \<le> LONG_MAX"
    using len by (simp add: INT_MAX_def LONG_MAX_def)
  then have sz: "wrap_long (wrap_long (w * h) * 4) = int (length data)"
    by (intro expected_size_match [OF dims len])
  have r: "\<not> w < INT_MIN" "\<not> INT_MAX < w" "\<not> h < INT_MIN" "\<not> INT_MAX < h"
    using dims wb by (simp_all add: INT_MIN_def)
  have src: "\<forall>i j k. 0 \<le> i \<and> i < w \<and> 0 \<le> j \<and> j < h \<and> k < 4 \<longrightarrow>
               block_byte block (i mod width block) (j mod height block) k
                 = Some (data ! nat ((j * w + i) * 4 + block_offsets is_argb ! k))"
    using block_byte_data [OF len wb(3), of _ _ _ is_argb]
    by (simp add: block_def)
  have img0: "photos s0 path = Some m" and lim0: "W * H * 4 \<le> alloc_limit s0"
    using img lim by (simp_all add: s0_def called_def)
  from store_region_ok [OF wf pos dims noclip W H lim0 src]
  obtain bytes where
    sr: "store_region m x y w h
           (\<lambda>i j k. block_byte block (i mod width block) (j mod height block) k)
           (alloc_limit s0)
         = Some (TCL_OK, m\<lparr>pm_width := W, pm_height := H, pix32 := bytes\<rparr>)"
    and bl: "int (length bytes) = W * H * 4"
    and px: "\<forall>i j k. 0 \<le> i \<and> i < w \<and> 0 \<le> j \<and> j < h \<and> k < 4 \<longrightarrow>
               bytes ! nat (((y + j) * W + (x + i)) * 4 + int k)
                 = data ! nat ((j * w + i) * 4 + block_offsets is_argb ! k)"
    by blast
  define s1 where
    "s1 = called c (s0\<lparr>photos := (photos s0)
             (path := Some (m\<lparr>pm_width := W, pm_height := H, pix32 := bytes\<rparr>))\<rparr>)"
  have put: "Tk_PhotoPutBlock path block x y w h s0 = (Some TCL_OK, s1)"
    by (simp add: Tk_PhotoPutBlock_def img0 sr write_photo_def c_def s1_def)
  have find: "Tk_FindPhoto path s = (Some path, s0)"
    by (simp add: Tk_FindPhoto_def img s0_def)
  have run: "interp_photo_put_block (RString path) (RString data) (RInteger w) (RInteger h)
               opts s = (Inr Qnil, s1)"
    using sz r dims path opts
    by (simp add: interp_photo_put_block_def then_do_lift StringValue_def NUM2INT_def
        RSTRING_LEN_def Let_def StringValueCStr_def then_do_def native_def find
        native_write_def put [unfolded block_def] lift_def)
  have "photos s1 path = Some (m\<lparr>pm_width := W, pm_height := H, pix32 := bytes\<rparr>)"
    by (simp add: s1_def called_def)
  with run bl px show ?thesis by blast
qed


lemma put_then_get:
  fixes W H :: int
  assumes path: "CHR 0x00 \<notin> set path" and img: "photos s path = Some m"
    and wf: "0 \<le> pm_width m" "0 \<le> pm_height m"
      "int (length (pix32 m)) = pm_width m * pm_height m * 4"
    and dims: "0 < w" "0 < h" and len: "int (length data) = w * h * 4"
    and opts: "put_block_opts opts = Inr (x, y, is_argb)" and pos: "0 \<le> x" "0 \<le> y"
    and noclip: "userWidth m = 0 \<or> x + w \<le> userWidth m"
      "userHeight m = 0 \<or> y + h \<le> userHeight m"
    and W: "W = max (x + w) (pm_width m)" and H: "H = max (y + h) (pm_height m)"
    and small: "W * H * 4 \<le> INT_MAX" and lim: "W * H * 4 \<le> alloc_limit s"
  shows "\<exists>s1.
           interp_photo_put_block (RString path) (RString data) (RInteger w) (RInteger h) opts s
             = (Inr Qnil, s1)
         \<and> fst (interp_photo_get_image (RString path) (region_opts x y w h) s1)
             = Inr (RHash [(RSymbol ''width'', RInteger w), (RSymbol ''height'', RInteger h),
                    (RSymbol ''data'', RString
                       (concat (map (\<lambda>n. map (\<lambda>k. data ! (4 * n + nat (block_offsets is_argb ! k)))
                                             [0, 1, 2, 3])
                                    [0..<nat h * nat w])))])"
proof -
  from put_block_effect [OF assms]
  obtain s1 bytes where
    run: "interp_photo_put_block (RString path) (RString data) (RInteger w) (RInteger h) opts s
             = (Inr Qnil, s1)"
    and img1: "photos s1 path = Some (m\<lparr>pm_width := W, pm_height := H, pix32 := bytes\<rparr>)"
    and bl: "int (length bytes) = W * H * 4"
    and px: "\<forall>i j k. 0 \<le> i \<and> i < w \<and> 0 \<le> j \<and> j < h \<and> k < 4 \<longrightarrow>
               bytes ! nat (((y + j) * W + (x + i)) * 4 + int k)
                 = data ! nat ((j * w + i) * 4 + block_offsets is_argb ! k)"
    by blast
  have fit: "x + w \<le> W" "y + h \<le> H" using W H by simp_all
  have inner: "map (\<lambda>k. bytes ! nat (((y + int j) * W + (x + int i)) * 4 + int k)) [0, 1, 2, 3]
             = map (\<lambda>k. data ! (4 * (j * nat w + i) + nat (block_offsets is_argb ! k)))
                 [0, 1, 2, 3]"
    if "j < nat h" "i < nat w" for i j
  proof (rule map_cong [OF refl])
    fix k :: nat assume "k \<in> set [0, 1, 2, 3]"
    then have k: "k < 4" by auto
    have ij: "0 \<le> int i" "int i < w" "0 \<le> int j" "int j < h"
      using that by simp_all
    have "bytes ! nat (((y + int j) * W + (x + int i)) * 4 + int k)
            = data ! nat ((int j * w + int i) * 4 + block_offsets is_argb ! k)"
      using px ij k by blast
    moreover have "nat ((int j * w + int i) * 4 + block_offsets is_argb ! k)
            = 4 * (j * nat w + i) + nat (block_offsets is_argb ! k)"
    proof -
      define wn where "wn = nat w"
      have wn: "w = int wn" using dims by (simp add: wn_def)
      have e: "(int j * w + int i) * 4 = int (4 * (j * wn + i))"
        unfolding wn by simp
      have "nat (int (4 * (j * wn + i)) + block_offsets is_argb ! k)
              = nat (int (4 * (j * wn + i))) + nat (block_offsets is_argb ! k)"
        by (rule nat_add_distrib) (simp_all add: block_offsets_range(1) [OF k])
      then have s: "nat (int (4 * (j * wn + i)) + block_offsets is_argb ! k)
              = 4 * (j * wn + i) + nat (block_offsets is_argb ! k)"
        by (simp only: nat_int)
      have f: "nat w = wn" by (simp only: wn_def)
      show ?thesis
        by (simp only: e s f)
    qed
    ultimately show "bytes ! nat (((y + int j) * W + (x + int i)) * 4 + int k)
            = data ! (4 * (j * nat w + i) + nat (block_offsets is_argb ! k))"
      by simp
  qed
  have "concat (map (\<lambda>j. concat (map (\<lambda>i.
            map (\<lambda>k. bytes ! nat (((y + int j) * W + (x + int i)) * 4 + int k)) [0, 1, 2, 3])
            [0..<nat w])) [0..<nat h])
      = concat (map (\<lambda>j. concat (map (\<lambda>i.
            map (\<lambda>k. data ! (4 * (j * nat w + i) + nat (block_offsets is_argb ! k)))
              [0, 1, 2, 3])
            [0..<nat w])) [0..<nat h])"
  proof (rule arg_cong [where f = concat], rule map_cong [OF refl],
      rule arg_cong [where f = concat], rule map_cong [OF refl])
    fix j i assume "j \<in> set [0..<nat h]" "i \<in> set [0..<nat w]"
    then have "j < nat h" "i < nat w" by simp_all
    then show "map (\<lambda>k. bytes ! nat (((y + int j) * W + (x + int i)) * 4 + int k)) [0, 1, 2, 3]
             = map (\<lambda>k. data ! (4 * (j * nat w + i) + nat (block_offsets is_argb ! k)))
                 [0, 1, 2, 3]"
      by (rule inner)
  qed
  also have "\<dots> = concat (map (\<lambda>n. map (\<lambda>k. data ! (4 * n + nat (block_offsets is_argb ! k)))
                                     [0, 1, 2, 3])
                          [0..<nat h * nat w])"
    by (rule concat_rows_flat)
  finally have out: "concat (map (\<lambda>j. concat (map (\<lambda>i.
            map (\<lambda>k. bytes ! nat (((y + int j) * W + (x + int i)) * 4 + int k)) [0, 1, 2, 3])
            [0..<nat w])) [0..<nat h])
      = concat (map (\<lambda>n. map (\<lambda>k. data ! (4 * n + nat (block_offsets is_argb ! k)))
                                     [0, 1, 2, 3])
                          [0..<nat h * nat w])" .
  have "fst (interp_photo_get_image (RString path) (region_opts x y w h) s1)
         = Inr (RHash [(RSymbol ''width'', RInteger w), (RSymbol ''height'', RInteger h),
                       (RSymbol ''data'', RString
                          (concat (map (\<lambda>j. concat (map (\<lambda>i.
                             map (\<lambda>k. bytes ! nat (((y + int j) * W + (x + int i)) * 4 + int k))
                               [0, 1, 2, 3])
                             [0..<nat w])) [0..<nat h])))])"
    by (rule get_image_read [OF path img1 _ _ _ bl small pos dims fit]) simp_all
  with run show ?thesis
    unfolding out by blast
qed


subsection \<open>The round trip\<close>

text \<open>
  C3, as stated, fails. The image \<^verbatim>\<open>i00003\<close> has the user-requested size 1 by 1. A
  write of the two pixels \<^verbatim>\<open>wxyzWXYZ\<close> (width 2, height 1, layout RGBA) returns nil:
  Tk silently clips the area to the requested size and stores the first pixel only.
  The read of the same region is clamped to the image and returns width 1 and the four
  bytes \<^verbatim>\<open>wxyz\<close>, not the eight that were written.
\<close>

theorem put_block_clipped_counterexample:
  "fst (interp_photo_put_block (RString ''i00003'') (RString ''wxyzWXYZ'') (RInteger 2)
          (RInteger 1) Qnil sized_interp) = Inr Qnil
   \<and> fst (interp_photo_get_image (RString ''i00003'') (region_opts 0 0 2 1)
          (snd (interp_photo_put_block (RString ''i00003'') (RString ''wxyzWXYZ'') (RInteger 2)
                  (RInteger 1) Qnil sized_interp)))
       = Inr (RHash [(RSymbol ''width'', RInteger 1), (RSymbol ''height'', RInteger 1),
                     (RSymbol ''data'', RString ''wxyz'')])"
  by code_simp

text \<open>
  C3, amended. Let the path name an image whose storage is consistent, and let the
  buffer have \<open>width * height * 4\<close> bytes. A \<^verbatim>\<open>photo_put_block\<close> whose \<^verbatim>\<open>:format\<close>
  is not \<^verbatim>\<open>:argb\<close> (the layout RGBA, which is the layout of every read), at
  non-negative offsets, of an area that a user-requested size of the image does not
  clip, into an image that stays within \<open>INT_MAX\<close> bytes that Tk can allocate, returns
  nil; and \<^verbatim>\<open>photo_get_image\<close> of the same region then returns the width, the height
  and, as \<^verbatim>\<open>:data\<close>, the very bytes written. (Negative offsets, which the write passes
  on unchecked while the read clamps them, and images beyond \<open>INT_MAX\<close> bytes, where
  the row address of the read is computed in \<^verbatim>\<open>int\<close>, are left out: nothing is
  stated about them.)
\<close>

theorem put_block_get_image_roundtrip:
  fixes W H :: int
  assumes "CHR 0x00 \<notin> set path" and "photos s path = Some m"
    and "0 \<le> pm_width m" "0 \<le> pm_height m"
      "int (length (pix32 m)) = pm_width m * pm_height m * 4"
    and "0 < w" "0 < h" and "int (length data) = w * h * 4"
    and "put_block_opts opts = Inr (x, y, is_argb)" and "0 \<le> x" "0 \<le> y"
    and "userWidth m = 0 \<or> x + w \<le> userWidth m"
      "userHeight m = 0 \<or> y + h \<le> userHeight m"
    and "W = max (x + w) (pm_width m)" and "H = max (y + h) (pm_height m)"
    and "W * H * 4 \<le> INT_MAX" and "W * H * 4 \<le> alloc_limit s"
    and fmt: "rb_hash_aref opts (RSymbol ''format'') \<noteq> RSymbol ''argb''"
  shows "\<exists>s1.
           interp_photo_put_block (RString path) (RString data) (RInteger w) (RInteger h) opts s
             = (Inr Qnil, s1)
         \<and> fst (interp_photo_get_image (RString path) (region_opts x y w h) s1)
             = Inr (RHash [(RSymbol ''width'', RInteger w), (RSymbol ''height'', RInteger h),
                           (RSymbol ''data'', RString data)])"
proof -
  have o: "block_offsets is_argb = [0, 1, 2, 3]"
    using put_block_opts_format [OF assms(9)] fmt by simp
  have "int (length data) = int (4 * (nat h * nat w))"
    using assms(6,7,8) by (simp add: mult.commute)
  then have l: "length data = 4 * (nat h * nat w)"
    by (simp only: of_nat_eq_iff)
  have "concat (map (\<lambda>n. map (\<lambda>k. data ! (4 * n + nat (block_offsets is_argb ! k)))
                          [0, 1, 2, 3]) [0..<nat h * nat w])
      = concat (map (\<lambda>i. [data ! (4 * i), data ! (4 * i + 1), data ! (4 * i + 2),
                            data ! (4 * i + 3)]) [0..<nat h * nat w])"
    by (simp add: o)
  also have "\<dots> = data"
    by (rule rgba_pixels_id [OF l])
  finally show ?thesis
    using put_then_get [OF assms(1-17)] by simp
qed

text \<open>
  C4, as stated, fails in the same way. On the image \<^verbatim>\<open>i00003\<close> of requested size 1
  by 1, the ARGB write of the two pixels \<^verbatim>\<open>BGRAbgra\<close> returns nil and stores one
  pixel; the read of the same region returns width 1 and \<^verbatim>\<open>RGBA\<close>, where the
  documented mapping of the whole buffer is \<^verbatim>\<open>RGBArgba\<close>.
\<close>

theorem put_block_argb_clipped_counterexample:
  "fst (interp_photo_put_block (RString ''i00003'') (RString ''BGRAbgra'') (RInteger 2)
          (RInteger 1) (RHash [(RSymbol ''format'', RSymbol ''argb'')]) sized_interp) = Inr Qnil
   \<and> fst (interp_photo_get_image (RString ''i00003'') (region_opts 0 0 2 1)
          (snd (interp_photo_put_block (RString ''i00003'') (RString ''BGRAbgra'') (RInteger 2)
                  (RInteger 1) (RHash [(RSymbol ''format'', RSymbol ''argb'')]) sized_interp)))
       = Inr (RHash [(RSymbol ''width'', RInteger 1), (RSymbol ''height'', RInteger 1),
                     (RSymbol ''data'', RString ''RGBA'')])
   \<and> argb_to_rgba ''BGRAbgra'' = ''RGBArgba''"
  by code_simp

text \<open>
  C4, amended. Under the conditions of the amended C3 (consistent image, non-negative
  offsets, an area not clipped by a user-requested size, an image within \<open>INT_MAX\<close>
  bytes that Tk can allocate), a write with \<^verbatim>\<open>format: :argb\<close> returns nil, and the
  read of the same region returns the width, the height and, pixel by pixel, the bytes
  at offsets 2, 1, 0, 3 of the pixel written: \<open>argb_to_rgba\<close> of the buffer.
\<close>

theorem put_block_argb_get_image_rgba:
  fixes W H :: int
  assumes "CHR 0x00 \<notin> set path" and "photos s path = Some m"
    and "0 \<le> pm_width m" "0 \<le> pm_height m"
      "int (length (pix32 m)) = pm_width m * pm_height m * 4"
    and "0 < w" "0 < h" and "int (length data) = w * h * 4"
    and "put_block_opts opts = Inr (x, y, is_argb)" and "0 \<le> x" "0 \<le> y"
    and "userWidth m = 0 \<or> x + w \<le> userWidth m"
      "userHeight m = 0 \<or> y + h \<le> userHeight m"
    and "W = max (x + w) (pm_width m)" and "H = max (y + h) (pm_height m)"
    and "W * H * 4 \<le> INT_MAX" and "W * H * 4 \<le> alloc_limit s"
    and fmt: "rb_hash_aref opts (RSymbol ''format'') = RSymbol ''argb''"
  shows "\<exists>s1.
           interp_photo_put_block (RString path) (RString data) (RInteger w) (RInteger h) opts s
             = (Inr Qnil, s1)
         \<and> fst (interp_photo_get_image (RString path) (region_opts x y w h) s1)
             = Inr (RHash [(RSymbol ''width'', RInteger w), (RSymbol ''height'', RInteger h),
                           (RSymbol ''data'', RString (argb_to_rgba data))])"
proof -
  have o: "block_offsets is_argb = [2, 1, 0, 3]"
    using put_block_opts_format [OF assms(9)] fmt by simp
  have "int (length data) = int (4 * (nat h * nat w))"
    using assms(6,7,8) by (simp add: mult.commute)
  then have l: "length data = 4 * (nat h * nat w)"
    by (simp only: of_nat_eq_iff)
  have "concat (map (\<lambda>n. map (\<lambda>k. data ! (4 * n + nat (block_offsets is_argb ! k)))
                          [0, 1, 2, 3]) [0..<nat h * nat w])
      = concat (map (\<lambda>i. [data ! (4 * i + 2), data ! (4 * i + 1), data ! (4 * i),
                            data ! (4 * i + 3)]) [0..<nat h * nat w])"
    by (simp add: o)
  also have "\<dots> = argb_to_rgba data"
    by (rule argb_pixels [OF l])
  finally show ?thesis
    using put_then_get [OF assms(1-17)] by simp
qed


lemma offset_opts_example:
  "put_block_opts (RHash [(RSymbol ''x'', RInteger 1), (RSymbol ''y'', RInteger 1)])
     = Inr (1, 1, 0)"
  by (simp add: put_block_opts_def NIL_P_def opt_int_def rb_hash_aref_def ID2SYM_def
      rb_intern_def and_then_def opt_is_argb_def NUM2INT_def INT_MIN_def INT_MAX_def)

theorem put_block_get_image_roundtrip_witness:
  "\<exists>s1. interp_photo_put_block (RString ''i00002'') (RString ''wxyz'') (RInteger 1) (RInteger 1)
            (RHash [(RSymbol ''x'', RInteger 1), (RSymbol ''y'', RInteger 1)]) photo_interp
          = (Inr Qnil, s1)
      \<and> fst (interp_photo_get_image (RString ''i00002'') (region_opts 1 1 1 1) s1)
          = Inr (RHash [(RSymbol ''width'', RInteger 1), (RSymbol ''height'', RInteger 1),
                        (RSymbol ''data'', RString ''wxyz'')])"
proof (rule put_block_get_image_roundtrip [where m = small_photo and is_argb = 0
      and W = 2 and H = 2])
  show "CHR 0x00 \<notin> set ''i00002''" by simp
  show "photos photo_interp ''i00002'' = Some small_photo"
    by (simp add: photo_interp_def)
  show "0 \<le> pm_width small_photo" "0 \<le> pm_height small_photo"
    "int (length (pix32 small_photo)) = pm_width small_photo * pm_height small_photo * 4"
    by (simp_all add: small_photo_def)
  show "(0::int) < 1" "(0::int) < 1" "(0::int) \<le> 1" "(0::int) \<le> 1" by simp_all
  show "int (length ''wxyz'') = 1 * 1 * 4" by simp
  show "put_block_opts (RHash [(RSymbol ''x'', RInteger 1), (RSymbol ''y'', RInteger 1)])
          = Inr (1, 1, 0)"
    by (rule offset_opts_example)
  show "userWidth small_photo = 0 \<or> 1 + 1 \<le> userWidth small_photo"
    "userHeight small_photo = 0 \<or> 1 + 1 \<le> userHeight small_photo"
    by (simp_all add: small_photo_def)
  show "2 = max (1 + 1) (pm_width small_photo)" "2 = max (1 + 1) (pm_height small_photo)"
    by (simp_all add: small_photo_def)
  show "2 * 2 * 4 \<le> INT_MAX" by (simp add: INT_MAX_def)
  show "2 * 2 * 4 \<le> alloc_limit photo_interp" by (simp add: photo_interp_def)
  show "rb_hash_aref (RHash [(RSymbol ''x'', RInteger 1), (RSymbol ''y'', RInteger 1)])
          (RSymbol ''format'') \<noteq> RSymbol ''argb''"
    by (simp add: rb_hash_aref_def)
qed

lemma argb_to_rgba_example: "argb_to_rgba ''BGRAbgra'' = ''RGBArgba''"
  by simp

theorem put_block_argb_get_image_rgba_witness:
  "\<exists>s1. interp_photo_put_block (RString ''i00001'') (RString ''BGRAbgra'') (RInteger 2)
            (RInteger 1) (RHash [(RSymbol ''format'', RSymbol ''argb'')]) photo_interp
          = (Inr Qnil, s1)
      \<and> fst (interp_photo_get_image (RString ''i00001'') (region_opts 0 0 2 1) s1)
          = Inr (RHash [(RSymbol ''width'', RInteger 2), (RSymbol ''height'', RInteger 1),
                        (RSymbol ''data'', RString ''RGBArgba'')])"
  unfolding argb_to_rgba_example [symmetric]
proof (rule put_block_argb_get_image_rgba [where m = empty_photo and is_argb = 1
      and W = 2 and H = 1])
  show "CHR 0x00 \<notin> set ''i00001''" by simp
  show "photos photo_interp ''i00001'' = Some empty_photo"
    by (simp add: photo_interp_def)
  show "0 \<le> pm_width empty_photo" "0 \<le> pm_height empty_photo"
    "int (length (pix32 empty_photo)) = pm_width empty_photo * pm_height empty_photo * 4"
    by (simp_all add: empty_photo_def)
  show "(0::int) < 2" "(0::int) < 1" "(0::int) \<le> 0" "(0::int) \<le> 0" by simp_all
  show "int (length ''BGRAbgra'') = 2 * 1 * 4" by simp
  show "put_block_opts (RHash [(RSymbol ''format'', RSymbol ''argb'')]) = Inr (0, 0, 1)"
    by (rule format_opts_example(1))
  show "userWidth empty_photo = 0 \<or> 0 + 2 \<le> userWidth empty_photo"
    "userHeight empty_photo = 0 \<or> 0 + 1 \<le> userHeight empty_photo"
    by (simp_all add: empty_photo_def)
  show "2 = max (0 + 2) (pm_width empty_photo)" "1 = max (0 + 1) (pm_height empty_photo)"
    by (simp_all add: empty_photo_def)
  show "2 * 1 * 4 \<le> INT_MAX" by (simp add: INT_MAX_def)
  show "2 * 1 * 4 \<le> alloc_limit photo_interp" by (simp add: photo_interp_def)
  show "rb_hash_aref (RHash [(RSymbol ''format'', RSymbol ''argb'')]) (RSymbol ''format'')
          = RSymbol ''argb''"
    by (simp add: rb_hash_aref_def)
qed

end
